theory Spec2Isabelle
  imports Main "HOL-Library.Word" "HOL-Library.Multiset" "HOL-Library.AList"
begin

section \<open>Host port usage (pkg/controllers/state/hostportusage.go)\<close>

subsection \<open>Data\<close>

text \<open>
  A \<open>net.IP\<close> is a byte slice: 4 bytes (IPv4), 16 bytes (IPv6, or an IPv4 address behind
  the prefix \<open>00 .. 00 ff ff\<close>), or empty (\<open>nil\<close>, what \<open>net.ParseIP\<close> returns for text that
  is not an address).
\<close>

type_synonym byte = "8 word"
type_synonym IP = "byte list"

record NamespacedName =
  Namespace :: string
  Name :: string

text \<open>
  \<open>entry\<close>: the port is an \<open>int32\<close> that the code only compares for equality, the
  protocol a \<open>v1.Protocol\<close>, which is a string.
\<close>

record entry =
  podName :: NamespacedName
  ip :: IP
  port :: "32 word"
  protocol :: string

record HostPortUsage =
  reserved :: "entry list"

text \<open>The fields of \<open>v1.ContainerPort\<close>, \<open>v1.Container\<close> and \<open>v1.Pod\<close> that the code reads.\<close>

record ContainerPort =
  HostPort :: "32 word"
  HostIP :: string
  Protocol :: string

record Container =
  Ports :: "ContainerPort list"

record Pod =
  PodNamespace :: string
  PodName :: string
  Containers :: "Container list"

text \<open>
  Errors as values. \<open>Errorf\<close> keeps the format string and the entries that \<open>fmt.Errorf\<close>
  renders into it with \<open>entry.String\<close>; \<open>multiError\<close> is the combined error of
  \<open>go.uber.org/multierr\<close>.
\<close>

datatype error = Errorf string "entry list" | multiError "error list"

subsection \<open>The standard library's \<open>net.IP\<close> methods\<close>

definition v4InV6Prefix :: IP where
  "v4InV6Prefix = [0, 0, 0, 0, 0, 0, 0, 0, 0, 0, 0xff, 0xff]"

definition IPv4 :: "byte \<Rightarrow> byte \<Rightarrow> byte \<Rightarrow> byte \<Rightarrow> IP" where
  "IPv4 a b c d = v4InV6Prefix @ [a, b, c, d]"

definition IPv4zero :: IP where
  "IPv4zero = IPv4 0 0 0 0"

definition IPv6unspecified :: IP where
  "IPv6unspecified = [0, 0, 0, 0, 0, 0, 0, 0, 0, 0, 0, 0, 0, 0, 0, 0]"

text \<open>
  \<open>IP.Equal\<close>: equal byte slices, or a 4-byte address and its 16-byte form.
\<close>

definition Equal :: "IP \<Rightarrow> IP \<Rightarrow> bool" where
  "Equal a x =
     (if length a = length x then a = x
      else if length a = 4 \<and> length x = 16 then take 12 x = v4InV6Prefix \<and> a = drop 12 x
      else if length a = 16 \<and> length x = 4 then take 12 a = v4InV6Prefix \<and> drop 12 a = x
      else False)"

definition IsUnspecified :: "IP \<Rightarrow> bool" where
  "IsUnspecified a = (Equal a IPv4zero \<or> Equal a IPv6unspecified)"

subsection \<open>\<open>entry.matches\<close>\<close>

definition matches :: "entry \<Rightarrow> entry \<Rightarrow> bool" where
  "matches e rhs =
     (if protocol e \<noteq> protocol rhs then False
      else if port e \<noteq> port rhs then False
      else if \<not> Equal (ip e) (ip rhs) \<and> \<not> IsUnspecified (ip e) \<and> \<not> IsUnspecified (ip rhs)
        then False
      else True)"

subsection \<open>\<open>getHostPorts\<close>\<close>

definition ObjectKeyFromObject :: "Pod \<Rightarrow> NamespacedName" where
  "ObjectKeyFromObject pod = \<lparr>Namespace = PodNamespace pod, Name = PodName pod\<rparr>"

text \<open>
  \<open>net.ParseIP\<close> belongs to the standard library; \<open>getHostPorts\<close> takes it as the parameter
  \<open>ParseIP\<close>. The two loops carry the slice \<open>usage\<close> as an accumulator.
\<close>

fun getHostPorts_ports ::
  "(string \<Rightarrow> IP) \<Rightarrow> NamespacedName \<Rightarrow> ContainerPort list \<Rightarrow> entry list \<Rightarrow> entry list" where
  "getHostPorts_ports ParseIP name [] usage = usage"
| "getHostPorts_ports ParseIP name (p # ps) usage =
     (if HostPort p = 0 then getHostPorts_ports ParseIP name ps usage
      else
        let hostIP = (if HostIP p = [] then ''0.0.0.0'' else HostIP p)
        in getHostPorts_ports ParseIP name ps
             (usage @ [\<lparr>podName = name, ip = ParseIP hostIP, port = HostPort p,
                         protocol = Protocol p\<rparr>]))"

fun getHostPorts_containers ::
  "(string \<Rightarrow> IP) \<Rightarrow> NamespacedName \<Rightarrow> Container list \<Rightarrow> entry list \<Rightarrow> entry list" where
  "getHostPorts_containers ParseIP name [] usage = usage"
| "getHostPorts_containers ParseIP name (c # cs) usage =
     getHostPorts_containers ParseIP name cs (getHostPorts_ports ParseIP name (Ports c) usage)"

definition getHostPorts :: "(string \<Rightarrow> IP) \<Rightarrow> Pod \<Rightarrow> entry list" where
  "getHostPorts ParseIP pod =
     getHostPorts_containers ParseIP (ObjectKeyFromObject pod) (Containers pod) []"

text \<open>
  The values of \<open>net.ParseIP\<close> on the address literals of the examples below: an IPv4
  literal parses to its 16-byte form, \<open>::\<close> to sixteen zero bytes, anything that is not an
  address to \<open>nil\<close>.
\<close>

definition ParseIP_sample :: "string \<Rightarrow> IP" where
  "ParseIP_sample s =
     (if s = ''0.0.0.0'' then IPv4 0 0 0 0
      else if s = ''10.0.0.1'' then IPv4 10 0 0 1
      else if s = ''10.0.0.2'' then IPv4 10 0 0 2
      else if s = ''::'' then IPv6unspecified
      else [])"

subsection \<open>\<open>Add\<close>, \<open>DeletePod\<close>, \<open>Copy\<close> on the entries\<close>

definition NewHostPortUsage :: HostPortUsage where
  "NewHostPortUsage = \<lparr>reserved = []\<rparr>"

text \<open>The inner loop of \<open>Add\<close>: the first reserved entry that \<open>newEntry\<close> matches.\<close>

fun Add_existing :: "entry \<Rightarrow> entry list \<Rightarrow> error option" where
  "Add_existing newEntry [] = None"
| "Add_existing newEntry (existing # rest) =
     (if matches newEntry existing
      then Some (Errorf ''%s conflicts with existing HostPort configuration %s''
                   [newEntry, existing])
      else Add_existing newEntry rest)"

text \<open>The outer loop of \<open>Add\<close>, over the entries of the pod.\<close>

fun Add_new :: "entry list \<Rightarrow> entry list \<Rightarrow> error option" where
  "Add_new [] res = None"
| "Add_new (newEntry # rest) res =
     (case Add_existing newEntry res of
        Some err \<Rightarrow> Some err
      | None \<Rightarrow> Add_new rest res)"

text \<open>\<open>Add\<close> returns its error and the ledger as the call leaves it.\<close>

definition Add :: "(string \<Rightarrow> IP) \<Rightarrow> HostPortUsage \<Rightarrow> Pod \<Rightarrow> error option \<times> HostPortUsage" where
  "Add ParseIP u pod =
     (let newUsage = getHostPorts ParseIP pod in
      case Add_new newUsage (reserved u) of
        Some err \<Rightarrow> (Some err, u)
      | None \<Rightarrow> (None, u\<lparr>reserved := reserved u @ newUsage\<rparr>))"

fun DeletePod_loop :: "NamespacedName \<Rightarrow> entry list \<Rightarrow> entry list \<Rightarrow> entry list" where
  "DeletePod_loop key [] remaining = remaining"
| "DeletePod_loop key (e # es) remaining =
     (if podName e \<noteq> key then DeletePod_loop key es (remaining @ [e])
      else DeletePod_loop key es remaining)"

definition DeletePod :: "HostPortUsage \<Rightarrow> NamespacedName \<Rightarrow> HostPortUsage" where
  "DeletePod u key = u\<lparr>reserved := DeletePod_loop key (reserved u) []\<rparr>"

definition Copy :: "HostPortUsage \<Rightarrow> HostPortUsage" where
  "Copy u = \<lparr>reserved = [] @ reserved u\<rparr>"

subsection \<open>The ledger with its slice in a store\<close>

text \<open>
  \<open>Copy\<close> is about sharing, which lists of entries cannot show: \<open>reserved\<close> is a Go slice,
  a view of a backing array that \<open>append\<close> writes in place while the capacity lasts and
  replaces by a new array when it does not. Here the store is explicit. A slice is the
  address of its array, its length and its capacity (\<open>nil\<close> and \<open>[]entry{}\<close> have capacity
  0, and their address is never used).
\<close>

record slice =
  base :: nat
  len :: nat
  cap :: nat

text \<open>
  The store: the backing arrays (each as long as its capacity) and the \<open>HostPortUsage\<close>
  structs (each is its field \<open>reserved\<close>), by address, with the next unused address of
  each kind.
\<close>

record heap =
  arrays :: "nat \<Rightarrow> entry list"
  next_array :: nat
  structs :: "nat \<Rightarrow> slice"
  next_struct :: nat

text \<open>The zero value of \<open>entry\<close> fills the unused capacity of a new array.\<close>

definition zero_entry :: entry where
  "zero_entry = \<lparr>podName = \<lparr>Namespace = [], Name = []\<rparr>, ip = [], port = 0, protocol = []\<rparr>"

text \<open>The elements of a slice: the first \<open>len\<close> elements of its array.\<close>

definition elems :: "heap \<Rightarrow> slice \<Rightarrow> entry list" where
  "elems h s = take (len s) (arrays h (base s))"

text \<open>
  \<open>append(s, xs...)\<close>: in place when the capacity of \<open>s\<close> suffices, else into a new array.
  The capacity of the new array is the runtime's choice: the parameter \<open>growslice\<close> (from
  the old capacity and the length needed), and at least the length needed.
\<close>

definition append_slice ::
  "(nat \<Rightarrow> nat \<Rightarrow> nat) \<Rightarrow> heap \<Rightarrow> slice \<Rightarrow> entry list \<Rightarrow> heap \<times> slice" where
  "append_slice growslice h s xs =
     (let n = len s + length xs in
      if n \<le> cap s
      then (h\<lparr>arrays := (arrays h)
                (base s := take (len s) (arrays h (base s)) @ xs @ drop n (arrays h (base s)))\<rparr>,
            s\<lparr>len := n\<rparr>)
      else
        let newcap = max n (growslice (cap s) n); p = next_array h
        in (h\<lparr>arrays := (arrays h)(p := elems h s @ xs @ replicate (newcap - n) zero_entry),
              next_array := Suc p\<rparr>,
            \<lparr>base = p, len = n, cap = newcap\<rparr>))"

text \<open>
  The methods of \<open>*HostPortUsage\<close>, on the address of the struct. (The slice that
  \<open>getHostPorts\<close> builds is read and dropped: \<open>Add\<close> takes its elements.)
\<close>

definition NewHostPortUsage_h :: "heap \<Rightarrow> heap \<times> nat" where
  "NewHostPortUsage_h h =
     (h\<lparr>structs := (structs h)(next_struct h := \<lparr>base = 0, len = 0, cap = 0\<rparr>),
        next_struct := Suc (next_struct h)\<rparr>,
      next_struct h)"

definition Add_h ::
  "(nat \<Rightarrow> nat \<Rightarrow> nat) \<Rightarrow> (string \<Rightarrow> IP) \<Rightarrow> heap \<Rightarrow> nat \<Rightarrow> Pod \<Rightarrow> error option \<times> heap" where
  "Add_h growslice ParseIP h u pod =
     (let newUsage = getHostPorts ParseIP pod in
      case Add_new newUsage (elems h (structs h u)) of
        Some err \<Rightarrow> (Some err, h)
      | None \<Rightarrow>
          (case append_slice growslice h (structs h u) newUsage of
             (h1, s1) \<Rightarrow> (None, h1\<lparr>structs := (structs h1)(u := s1)\<rparr>)))"

text \<open>
  The loop of \<open>DeletePod\<close> over the indices of \<open>u.reserved\<close>: it reads the element from the
  array at each step, and appends to \<open>remaining\<close>, which starts as \<open>nil\<close>.
\<close>

fun DeletePod_h_loop ::
  "(nat \<Rightarrow> nat \<Rightarrow> nat) \<Rightarrow> NamespacedName \<Rightarrow> slice \<Rightarrow> nat list \<Rightarrow> heap \<Rightarrow> slice \<Rightarrow> heap \<times> slice" where
  "DeletePod_h_loop growslice key src [] h remaining = (h, remaining)"
| "DeletePod_h_loop growslice key src (i # rest) h remaining =
     (let e = arrays h (base src) ! i in
      if podName e \<noteq> key
      then (case append_slice growslice h remaining [e] of
              (h1, remaining1) \<Rightarrow> DeletePod_h_loop growslice key src rest h1 remaining1)
      else DeletePod_h_loop growslice key src rest h remaining)"

definition DeletePod_h :: "(nat \<Rightarrow> nat \<Rightarrow> nat) \<Rightarrow> heap \<Rightarrow> nat \<Rightarrow> NamespacedName \<Rightarrow> heap" where
  "DeletePod_h growslice h u key =
     (case DeletePod_h_loop growslice key (structs h u) [0..<len (structs h u)] h
             \<lparr>base = 0, len = 0, cap = 0\<rparr> of
        (h1, remaining) \<Rightarrow> h1\<lparr>structs := (structs h1)(u := remaining)\<rparr>)"

definition Copy_h :: "(nat \<Rightarrow> nat \<Rightarrow> nat) \<Rightarrow> heap \<Rightarrow> nat \<Rightarrow> heap \<times> nat" where
  "Copy_h growslice h u =
     (case append_slice growslice h \<lparr>base = 0, len = 0, cap = 0\<rparr> (elems h (structs h u)) of
        (h1, s1) \<Rightarrow>
          (h1\<lparr>structs := (structs h1)(next_struct h1 := s1),
              next_struct := Suc (next_struct h1)\<rparr>,
           next_struct h1))"

text \<open>The calls that change a ledger, and a run of such calls on a ledger and on its copy.\<close>

datatype op = OpAdd Pod | OpDeletePod NamespacedName

fun apply_op_h ::
  "(nat \<Rightarrow> nat \<Rightarrow> nat) \<Rightarrow> (string \<Rightarrow> IP) \<Rightarrow> nat \<Rightarrow> heap \<Rightarrow> op \<Rightarrow> heap" where
  "apply_op_h growslice ParseIP u h (OpAdd pod) = snd (Add_h growslice ParseIP h u pod)"
| "apply_op_h growslice ParseIP u h (OpDeletePod key) = DeletePod_h growslice h u key"

fun apply_ops_h ::
  "(nat \<Rightarrow> nat \<Rightarrow> nat) \<Rightarrow> (string \<Rightarrow> IP) \<Rightarrow> nat \<Rightarrow> nat \<Rightarrow> heap \<Rightarrow> (bool \<times> op) list \<Rightarrow> heap" where
  "apply_ops_h growslice ParseIP u c h [] = h"
| "apply_ops_h growslice ParseIP u c h ((onCopy, op) # rest) =
     apply_ops_h growslice ParseIP u c
       (apply_op_h growslice ParseIP (if onCopy then c else u) h op) rest"

text \<open>
  A slice of the store is valid when its length is within its capacity and, unless the
  capacity is 0, its array is allocated and has that capacity. Two slices are apart when
  they do not share an array. A ledger is valid when its struct is allocated and its slice
  valid.
\<close>

definition valid_slice :: "heap \<Rightarrow> slice \<Rightarrow> bool" where
  "valid_slice h s \<longleftrightarrow>
     len s \<le> cap s \<and> (0 < cap s \<longrightarrow> base s < next_array h \<and> length (arrays h (base s)) = cap s)"

definition apart :: "slice \<Rightarrow> slice \<Rightarrow> bool" where
  "apart s t \<longleftrightarrow> (0 < cap s \<and> 0 < cap t \<longrightarrow> base s \<noteq> base t)"

definition valid_usage :: "heap \<Rightarrow> nat \<Rightarrow> bool" where
  "valid_usage h u \<longleftrightarrow> u < next_struct h \<and> valid_slice h (structs h u)"

text \<open>The reserved entries of the ledger at address \<open>u\<close>.\<close>

definition Reserved :: "heap \<Rightarrow> nat \<Rightarrow> entry list" where
  "Reserved h u = elems h (structs h u)"

text \<open>What a step on the slice \<open>s\<close> leaves to every slice apart from it.\<close>

definition frames :: "heap \<Rightarrow> slice \<Rightarrow> heap \<Rightarrow> slice \<Rightarrow> bool" where
  "frames h s h' s' \<longleftrightarrow>
     (\<forall>t. valid_slice h t \<and> apart s t \<longrightarrow>
        elems h' t = elems h t \<and> valid_slice h' t \<and> apart s' t \<and>
        (0 < cap t \<longrightarrow> arrays h' (base t) = arrays h (base t)))"

definition separate :: "heap \<Rightarrow> nat \<Rightarrow> nat \<Rightarrow> bool" where
  "separate h u c \<longleftrightarrow>
     u \<noteq> c \<and> valid_usage h u \<and> valid_usage h c \<and> apart (structs h u) (structs h c)"

section \<open>The scheduler (pkg/controllers/provisioning/scheduling/scheduler.go)\<close>

subsection \<open>Resources\<close>

text \<open>
  A \<open>resource.Quantity\<close> is an exact decimal number; the model counts it in its smallest
  unit, as an integer. A \<open>v1.ResourceList\<close> is a Go map from resource names to quantities:
  the list of its entries, with no name twice. Reading a name that the map does not have
  gives the zero quantity.
\<close>

type_synonym Quantity = int
type_synonym ResourceList = "(string \<times> Quantity) list"

definition index :: "ResourceList \<Rightarrow> string \<Rightarrow> Quantity" where
  "index rl name = (case map_of rl name of None \<Rightarrow> 0 | Some q \<Rightarrow> q)"

text \<open>
  Modelled from the spec: \<open>resources.Cmp\<close> (pkg/utils/resources, not among the sources)
  compares two quantities: negative, zero or positive as the first is less than, equal to
  or greater than the second.
\<close>

definition Cmp :: "Quantity \<Rightarrow> Quantity \<Rightarrow> int" where
  "Cmp lhs rhs = (if lhs < rhs then - 1 else if lhs = rhs then 0 else 1)"

text \<open>
  Modelled from the spec: \<open>resources.MaxResources\<close> (pkg/utils/resources, not among the
  sources) is the element-wise maximum of resource lists: every resource that one of the
  lists names, with the greatest quantity that any of them gives it.
\<close>

definition MaxResources :: "ResourceList list \<Rightarrow> ResourceList" where
  "MaxResources rls =
     map (\<lambda>name. (name, Max (set (map snd (filter (\<lambda>e. fst e = name) (concat rls))))))
       (remdups (map fst (concat rls)))"

text \<open>Of a \<open>cloudprovider.InstanceType\<close>, the scheduler reads the resources.\<close>

record InstanceType =
  itName :: string
  Resources :: ResourceList

subsection \<open>\<open>subtractMax\<close>\<close>

text \<open>The loop over the entries of \<open>remaining\<close>, writing \<open>result[k]\<close>.\<close>

fun subtractMax_loop :: "ResourceList \<Rightarrow> ResourceList \<Rightarrow> ResourceList \<Rightarrow> ResourceList" where
  "subtractMax_loop itResources [] result = result"
| "subtractMax_loop itResources ((k, v) # rest) result =
     subtractMax_loop itResources rest (AList.update k (v - index itResources k) result)"

definition subtractMax :: "ResourceList \<Rightarrow> InstanceType list \<Rightarrow> ResourceList" where
  "subtractMax remaining instanceTypes =
     (if length instanceTypes = 0 then remaining
      else
        let allInstanceResources = map Resources instanceTypes;
            itResources = MaxResources allInstanceResources
        in subtractMax_loop itResources remaining [])"

subsection \<open>\<open>filterByRemainingResources\<close>\<close>

text \<open>The inner loop, over the entries of \<open>remaining\<close>, carries \<open>viableInstance\<close>.\<close>

fun viableInstance_loop :: "ResourceList \<Rightarrow> ResourceList \<Rightarrow> bool \<Rightarrow> bool" where
  "viableInstance_loop itResources [] viableInstance = viableInstance"
| "viableInstance_loop itResources ((resourceName, remainingQuantity) # rest) viableInstance =
     viableInstance_loop itResources rest
       (if Cmp (index itResources resourceName) remainingQuantity > 0 then False
        else viableInstance)"

fun filterByRemainingResources_loop ::
  "InstanceType list \<Rightarrow> ResourceList \<Rightarrow> InstanceType list \<Rightarrow> InstanceType list" where
  "filterByRemainingResources_loop [] remaining filtered = filtered"
| "filterByRemainingResources_loop (it # its) remaining filtered =
     filterByRemainingResources_loop its remaining
       (if viableInstance_loop (Resources it) remaining True then filtered @ [it]
        else filtered)"

definition filterByRemainingResources ::
  "InstanceType list \<Rightarrow> ResourceList \<Rightarrow> InstanceType list" where
  "filterByRemainingResources instanceTypes remaining =
     filterByRemainingResources_loop instanceTypes remaining []"

subsection \<open>The scheduler and what it calls\<close>

text \<open>
  The scheduler passes pods on without reading them: \<open>'p\<close> is the type of pods. Of a
  proposed node (\<open>*Node\<close>) it reads \<open>Pods\<close> and \<open>InstanceTypeOptions\<close>, of a node template
  \<open>ProvisionerName\<close>; the other fields of both are the record extensions \<open>'n\<close> and \<open>'m\<close>.
  In-flight nodes (\<open>'i\<close>), the topology (\<open>'t\<close>) and the queue (\<open>'q\<close>) are used only
  through their methods.
\<close>

record 'p Node =
  Pods :: "'p list"
  InstanceTypeOptions :: "InstanceType list"

record NodeTemplate =
  ProvisionerName :: string

text \<open>
  The fields of \<open>Scheduler\<close> that \<open>add\<close> and \<open>Solve\<close> use. The map \<open>daemonOverhead\<close> is read
  only: a function from templates to resource lists. (\<open>preferences\<close> is an empty struct;
  \<open>cluster\<close> is read by \<open>NewScheduler\<close> only; \<open>recorder\<close> is notified, never read.)
\<close>

record ('p, 'i, 'n, 'm, 't) Scheduler =
  nodes :: "('p, 'n) Node_scheme list"
  inflight :: "'i list"
  nodeTemplates :: "'m NodeTemplate_scheme list"
  remainingResources :: "string \<rightharpoonup> ResourceList"
  instanceTypes :: "InstanceType list"
  daemonOverhead :: "'m NodeTemplate_scheme \<Rightarrow> ResourceList"
  topology :: 't

text \<open>A \<open>context.Context\<close>: whether it has been cancelled.\<close>

record Context =
  cancelled :: bool

text \<open>
  The methods that \<open>add\<close> and \<open>Solve\<close> call and whose code is not among the sources, as
  parameters. Following the spec (4.5, 4.6, 9: an attempt that fails leaves the node and the
  topology as they were; a proposed node is built from its arguments), \<open>Add\<close> returns either
  its error or the node and the topology as it leaves them, and \<open>NewNode\<close> the new node.
  \<open>sort_Slice\<close> is the standard library's \<open>sort.Slice\<close>, which is not stable. \<open>Pop\<close>
  returns \<open>None\<close> where the code's returns \<open>false\<close>.
\<close>

record ('p, 'i, 'n, 'm, 't, 'q) Env =
  InFlightNode_Add :: "'t \<Rightarrow> 'i \<Rightarrow> 'p \<Rightarrow> error + ('i \<times> 't)"
  Node_Add :: "'t \<Rightarrow> ('p, 'n) Node_scheme \<Rightarrow> 'p \<Rightarrow> error + (('p, 'n) Node_scheme \<times> 't)"
  NewNode :: "'m NodeTemplate_scheme \<Rightarrow> 't \<Rightarrow> ResourceList \<Rightarrow> InstanceType list \<Rightarrow>
    ('p, 'n) Node_scheme"
  sort_Slice :: "(('p, 'n) Node_scheme \<Rightarrow> ('p, 'n) Node_scheme \<Rightarrow> bool) \<Rightarrow>
    ('p, 'n) Node_scheme list \<Rightarrow> ('p, 'n) Node_scheme list"
  Relax :: "Context \<Rightarrow> 'p \<Rightarrow> bool \<times> 'p"
  Topology_Update :: "Context \<Rightarrow> 't \<Rightarrow> 'p \<Rightarrow> error option \<times> 't"
  NewQueue :: "'p list \<Rightarrow> 'q"
  Pop :: "'q \<Rightarrow> ('p \<times> 'q) option"
  Push :: "'q \<Rightarrow> 'p \<Rightarrow> bool \<Rightarrow> 'q"
  Queue_List :: "'q \<Rightarrow> 'p list"

text \<open>
  \<open>multierr.Append\<close> (go.uber.org/multierr): \<open>nil\<close> is its unit; two errors combine into
  one that lists the errors of both.
\<close>

fun errors_of :: "error \<Rightarrow> error list" where
  "errors_of (multiError es) = es"
| "errors_of e = [e]"

fun multierr_Append :: "error option \<Rightarrow> error option \<Rightarrow> error option" where
  "multierr_Append None right = right"
| "multierr_Append left None = left"
| "multierr_Append (Some l) (Some r) = Some (multiError (errors_of l @ errors_of r))"

subsection \<open>\<open>Scheduler.add\<close>\<close>

text \<open>
  The loop \<open>for _, node := range ... { if err := node.Add(pod); err == nil { return nil } }\<close>,
  which \<open>add\<close> runs over the in-flight nodes and over the proposed nodes: \<open>Some\<close> of the
  nodes and the topology when a node took the pod (and \<open>add\<close> returns \<open>nil\<close>), \<open>None\<close> when
  the loop ran to its end.
\<close>

fun add_existing ::
  "('t \<Rightarrow> 'a \<Rightarrow> 'p \<Rightarrow> error + ('a \<times> 't)) \<Rightarrow> 'p \<Rightarrow> 't \<Rightarrow> 'a list \<Rightarrow> ('a list \<times> 't) option" where
  "add_existing node_Add pod topo [] = None"
| "add_existing node_Add pod topo (node # rest) =
     (case node_Add topo node pod of
        Inr (node', topo') \<Rightarrow> Some (node' # rest, topo')
      | Inl err \<Rightarrow>
          (case add_existing node_Add pod topo rest of
             None \<Rightarrow> None
           | Some (rest', topo') \<Rightarrow> Some (node # rest', topo')))"

text \<open>The order that \<open>add\<close> sorts the proposed nodes by.\<close>

definition fewerPods :: "('p, 'n) Node_scheme \<Rightarrow> ('p, 'n) Node_scheme \<Rightarrow> bool" where
  "fewerPods a b = (length (Pods a) < length (Pods b))"

text \<open>
  The head of the body of the loop over the node templates: the instance types for the new
  node, or the error of a provisioner whose limits exclude them all.
\<close>

definition add_instanceTypes ::
  "('p, 'i, 'n, 'm, 't) Scheduler \<Rightarrow> 'm NodeTemplate_scheme \<Rightarrow> error + InstanceType list" where
  "add_instanceTypes s nodeTemplate =
     (case remainingResources s (ProvisionerName nodeTemplate) of
        Some remaining \<Rightarrow>
          (let instanceTypes' = filterByRemainingResources (instanceTypes s) remaining in
           if length instanceTypes' = 0
           then Inl (Errorf ''all available instance types exceed provisioner limits'' [])
           else Inr instanceTypes')
      | None \<Rightarrow> Inr (instanceTypes s))"

text \<open>
  The body of the loop over the node templates: the error that \<open>errs\<close> takes up, or the
  scheduler with the new node, on which \<open>add\<close> returns \<open>nil\<close>. Indexing the map
  \<open>remainingResources\<close> with a name that it does not have gives the \<open>nil\<close> resource list.
\<close>

definition add_template ::
  "('p, 'i, 'n, 'm, 't, 'q) Env \<Rightarrow> 'p \<Rightarrow> ('p, 'i, 'n, 'm, 't) Scheduler \<Rightarrow>
   'm NodeTemplate_scheme \<Rightarrow> error + ('p, 'i, 'n, 'm, 't) Scheduler" where
  "add_template env pod s nodeTemplate =
     (case add_instanceTypes s nodeTemplate of
        Inl err \<Rightarrow> Inl err
      | Inr instanceTypes' \<Rightarrow>
          (let node = NewNode env nodeTemplate (topology s) (daemonOverhead s nodeTemplate)
                        instanceTypes'
           in case Node_Add env (topology s) node pod of
                Inl err \<Rightarrow> Inl err
              | Inr (node', topo') \<Rightarrow>
                  Inr (s\<lparr>nodes := nodes s @ [node'],
                         topology := topo',
                         remainingResources := (remainingResources s)
                           (ProvisionerName nodeTemplate \<mapsto>
                              subtractMax
                                (case remainingResources s (ProvisionerName nodeTemplate) of
                                   None \<Rightarrow> [] | Some remaining \<Rightarrow> remaining)
                                (InstanceTypeOptions node'))\<rparr>)))"

fun add_templates ::
  "('p, 'i, 'n, 'm, 't, 'q) Env \<Rightarrow> 'p \<Rightarrow> ('p, 'i, 'n, 'm, 't) Scheduler \<Rightarrow>
   'm NodeTemplate_scheme list \<Rightarrow> error option \<Rightarrow>
   error option \<times> ('p, 'i, 'n, 'm, 't) Scheduler" where
  "add_templates env pod s [] errs = (errs, s)"
| "add_templates env pod s (nodeTemplate # rest) errs =
     (case add_template env pod s nodeTemplate of
        Inr s' \<Rightarrow> (None, s')
      | Inl err \<Rightarrow> add_templates env pod s rest (multierr_Append errs (Some err)))"

text \<open>\<open>add\<close> returns its error and the scheduler as the call leaves it.\<close>

definition add ::
  "('p, 'i, 'n, 'm, 't, 'q) Env \<Rightarrow> 'p \<Rightarrow> ('p, 'i, 'n, 'm, 't) Scheduler \<Rightarrow>
   error option \<times> ('p, 'i, 'n, 'm, 't) Scheduler" where
  "add env pod s =
     (case add_existing (InFlightNode_Add env) pod (topology s) (inflight s) of
        Some (inflight', topo') \<Rightarrow> (None, s\<lparr>inflight := inflight', topology := topo'\<rparr>)
      | None \<Rightarrow>
          (let s1 = s\<lparr>nodes := sort_Slice env fewerPods (nodes s)\<rparr> in
           case add_existing (Node_Add env) pod (topology s1) (nodes s1) of
             Some (nodes', topo') \<Rightarrow> (None, s1\<lparr>nodes := nodes', topology := topo'\<rparr>)
           | None \<Rightarrow> add_templates env pod s1 (nodeTemplates s1) None))"

subsection \<open>\<open>Scheduler.Solve\<close>\<close>

text \<open>
  The loop of \<open>Solve\<close>, which may run for ever: its value is \<open>None\<close> then. The loop carries
  the queue, the map \<open>errors\<close> (by the pod as \<open>add\<close> got it) and the scheduler. \<open>Relax\<close>
  changes the pod in place: it returns whether it did, and the pod as it leaves it. The
  context goes to \<open>Relax\<close> and to \<open>topology.Update\<close> (and to the logger); the loop itself
  never reads it. An error of \<open>topology.Update\<close> is logged and dropped.
\<close>

partial_function (option) Solve_loop ::
  "('p, 'i, 'n, 'm, 't, 'q) Env \<Rightarrow> Context \<Rightarrow> 'q \<Rightarrow> ('p \<Rightarrow> error option) \<Rightarrow>
   ('p, 'i, 'n, 'm, 't) Scheduler \<Rightarrow>
   ('q \<times> ('p \<Rightarrow> error option) \<times> ('p, 'i, 'n, 'm, 't) Scheduler) option" where
  "Solve_loop env ctx q errors s =
     (case Pop env q of
        None \<Rightarrow> Some (q, errors, s)
      | Some (pod, q1) \<Rightarrow>
          (case add env pod s of
             (None, s1) \<Rightarrow> Solve_loop env ctx q1 (errors(pod := None)) s1
           | (Some err, s1) \<Rightarrow>
               (case Relax env ctx pod of
                  (relaxed, pod') \<Rightarrow>
                    Solve_loop env ctx (Push env q1 pod' relaxed) (errors(pod := Some err))
                      (if relaxed
                       then s1\<lparr>topology := snd (Topology_Update env ctx (topology s1) pod')\<rparr>
                       else s1))))"

text \<open>
  \<open>Solve\<close> returns the proposed nodes and its error, here with the scheduler as the call
  leaves it. (\<open>recordSchedulingResults\<close> writes to the log and notifies the recorder of the
  pods left in the queue; it changes nothing that \<open>Solve\<close> returns.)
\<close>

definition Solve ::
  "('p, 'i, 'n, 'm, 't, 'q) Env \<Rightarrow> ('p, 'i, 'n, 'm, 't) Scheduler \<Rightarrow> Context \<Rightarrow> 'p list \<Rightarrow>
   ((('p, 'n) Node_scheme list \<times> error option) \<times> ('p, 'i, 'n, 'm, 't) Scheduler) option" where
  "Solve env s ctx pods =
     (case Solve_loop env ctx (NewQueue env pods) (\<lambda>pod. None) s of
        None \<Rightarrow> None
      | Some (q, errors, s') \<Rightarrow> Some ((nodes s', None), s'))"

subsection \<open>Example instance types\<close>

definition small :: InstanceType where
  "small = \<lparr>itName = ''small'', Resources = [(''cpu'', 2), (''memory'', 4)]\<rparr>"

definition medium :: InstanceType where
  "medium = \<lparr>itName = ''medium'', Resources = [(''cpu'', 8), (''memory'', 16)]\<rparr>"

definition large :: InstanceType where
  "large = \<lparr>itName = ''large'', Resources = [(''cpu'', 16), (''memory'', 32), (''gpu'', 1)]\<rparr>"

subsection \<open>An example scheduler\<close>

text \<open>
  For the examples, \<open>sort.Slice\<close> is an insertion sort; a pod is the number of CPUs that it
  asks for, an in-flight node the number of CPUs that it has free, the topology the number
  of pods placed. A proposed node takes a pod when one of its instance types has the CPUs
  for all its pods, and keeps the instance types that do. The queue is the list of the pods
  to try and the list of the pods given up; no pod can be relaxed.
\<close>

fun insert_by :: "('a \<Rightarrow> 'a \<Rightarrow> bool) \<Rightarrow> 'a \<Rightarrow> 'a list \<Rightarrow> 'a list" where
  "insert_by lt x [] = [x]"
| "insert_by lt x (y # ys) = (if lt y x then y # insert_by lt x ys else x # y # ys)"

definition insertion_sort :: "('a \<Rightarrow> 'a \<Rightarrow> bool) \<Rightarrow> 'a list \<Rightarrow> 'a list" where
  "insertion_sort lt xs = foldr (insert_by lt) xs []"

definition sample_env :: "(nat, nat, unit, unit, nat, nat list \<times> nat list) Env" where
  "sample_env =
     \<lparr>InFlightNode_Add = (\<lambda>topo free pod.
        if pod \<le> free then Inr (free - pod, Suc topo)
        else Inl (Errorf ''insufficient capacity'' [])),
      Node_Add = (\<lambda>topo node pod.
        let fits = filter (\<lambda>it. int (sum_list (Pods node) + pod) \<le> index (Resources it) ''cpu'')
                     (InstanceTypeOptions node)
        in if fits = [] then Inl (Errorf ''no instance type fits'' [])
           else Inr (node\<lparr>Pods := Pods node @ [pod], InstanceTypeOptions := fits\<rparr>, Suc topo)),
      NewNode = (\<lambda>nodeTemplate topo overhead its. \<lparr>Pods = [], InstanceTypeOptions = its\<rparr>),
      sort_Slice = insertion_sort,
      Relax = (\<lambda>ctx pod. (False, pod)),
      Topology_Update = (\<lambda>ctx topo pod. (None, topo)),
      NewQueue = (\<lambda>pods. (pods, [])),
      Pop = (\<lambda>q. case fst q of [] \<Rightarrow> None | pod # rest \<Rightarrow> Some (pod, (rest, snd q))),
      Push = (\<lambda>q pod relaxed. if relaxed then (fst q @ [pod], snd q) else (fst q, snd q @ [pod])),
      Queue_List = (\<lambda>q. fst q @ snd q)\<rparr>"

text \<open>
  A scheduler with three in-flight nodes, no proposed node and two provisioners: the
  limits of \<open>spot\<close> exclude every instance type.
\<close>

definition sample_scheduler :: "(nat, nat, unit, unit, nat) Scheduler" where
  "sample_scheduler =
     \<lparr>nodes = [], inflight = [1, 3, 5],
      nodeTemplates = [\<lparr>ProvisionerName = ''spot''\<rparr>, \<lparr>ProvisionerName = ''default''\<rparr>],
      remainingResources = [''spot'' \<mapsto> [(''cpu'', 1)], ''default'' \<mapsto> [(''cpu'', 20), (''memory'', 64)]],
      instanceTypes = [small, medium, large],
      daemonOverhead = (\<lambda>nodeTemplate. []),
      topology = 0\<rparr>"



text \<open>The example scheduler after \<open>add\<close> has made a new node for a pod of 6 CPUs.\<close>

definition sample_scheduler_6 :: "(nat, nat, unit, unit, nat) Scheduler" where
  "sample_scheduler_6 = sample_scheduler\<lparr>
     nodes := [\<lparr>Pods = [6], InstanceTypeOptions = [medium, large]\<rparr>],
     topology := 1,
     remainingResources := (remainingResources sample_scheduler)
       (''default'' \<mapsto> [(''cpu'', 4), (''memory'', 32)])\<rparr>"


subsection \<open>Example pods\<close>

definition port80 :: "string \<Rightarrow> string \<Rightarrow> ContainerPort" where
  "port80 hostIP proto = \<lparr>HostPort = 80, HostIP = hostIP, Protocol = proto\<rparr>"

text \<open>A pod that leaves the host IP and the protocol of its one host port empty.\<close>

definition pod_web :: Pod where
  "pod_web = \<lparr>PodNamespace = ''default'', PodName = ''web'',
     Containers = [\<lparr>Ports = [port80 [] []]\<rparr>]\<rparr>"

text \<open>
  A pod with three container ports in two containers: one without a host port, and two that
  ask for port 80/TCP, on every address and on \<open>10.0.0.1\<close>.
\<close>

definition pod_twice :: Pod where
  "pod_twice = \<lparr>PodNamespace = ''default'', PodName = ''twice'',
     Containers = [\<lparr>Ports = [\<lparr>HostPort = 0, HostIP = [], Protocol = ''TCP''\<rparr>, port80 [] ''TCP'']\<rparr>,
                   \<lparr>Ports = [port80 ''10.0.0.1'' ''TCP'']\<rparr>]\<rparr>"

definition pod_other :: Pod where
  "pod_other = \<lparr>PodNamespace = ''default'', PodName = ''other'',
     Containers = [\<lparr>Ports = [port80 ''10.0.0.2'' ''TCP'']\<rparr>]\<rparr>"


subsection \<open>An example store\<close>

text \<open>
  A ledger at address 1 with the two entries of \<open>pod_twice\<close> in an array of capacity 4,
  a runtime that doubles capacities, and the same store with a second ledger at address 2
  that shares the slice of the first.
\<close>

definition sample_heap :: heap where
  "sample_heap =
     \<lparr>arrays = (\<lambda>a. [])(1 := getHostPorts ParseIP_sample pod_twice @ [zero_entry, zero_entry]),
      next_array = 2,
      structs = (\<lambda>a. \<lparr>base = 0, len = 0, cap = 0\<rparr>)(1 := \<lparr>base = 1, len = 2, cap = 4\<rparr>),
      next_struct = 2\<rparr>"

definition double :: "nat \<Rightarrow> nat \<Rightarrow> nat" where
  "double oldcap needed = 2 * oldcap"

definition pod_dns :: Pod where
  "pod_dns = \<lparr>PodNamespace = ''default'', PodName = ''dns'',
     Containers = [\<lparr>Ports = [\<lparr>HostPort = 53, HostIP = [], Protocol = ''UDP''\<rparr>]\<rparr>]\<rparr>"

definition shared_heap :: heap where
  "shared_heap = sample_heap\<lparr>structs := (structs sample_heap)(2 := structs sample_heap 1),
                              next_struct := 3\<rparr>"

section \<open>Properties of the host port ledger\<close>

lemma IsUnspecified_iff:
  "IsUnspecified a \<longleftrightarrow> a = [0, 0, 0, 0] \<or> a = IPv4zero \<or> a = IPv6unspecified"
  by (auto simp: IsUnspecified_def Equal_def IPv4zero_def IPv4_def IPv6unspecified_def
      v4InV6Prefix_def)

text \<open>
  C1: \<open>e.matches(rhs)\<close> is true exactly when the protocols are equal, the ports are equal,
  and the IPs are equal (as \<open>net.IP.Equal\<close> compares them) or one of them is unspecified.
  The unspecified addresses are \<open>0.0.0.0\<close>, in its 4-byte and its 16-byte form, and \<open>::\<close>.
\<close>

theorem matches_iff:
  "(matches e rhs \<longleftrightarrow>
      protocol e = protocol rhs \<and> port e = port rhs \<and>
      (Equal (ip e) (ip rhs) \<or> IsUnspecified (ip e) \<or> IsUnspecified (ip rhs))) \<and>
   (IsUnspecified a \<longleftrightarrow> a = [0, 0, 0, 0] \<or> a = IPv4 0 0 0 0 \<or> a = IPv6unspecified)"
  using IsUnspecified_iff [of a] by (auto simp: matches_def IPv4zero_def)

subsection \<open>\<open>getHostPorts\<close>\<close>

lemma getHostPorts_ports_eq:
  "getHostPorts_ports ParseIP name ps usage =
     usage @ map (\<lambda>p. \<lparr>podName = name,
                         ip = ParseIP (if HostIP p = [] then ''0.0.0.0'' else HostIP p),
                         port = HostPort p, protocol = Protocol p\<rparr>)
               (filter (\<lambda>p. HostPort p \<noteq> 0) ps)"
  by (induction ps arbitrary: usage) (simp_all add: Let_def)

lemma getHostPorts_containers_eq:
  "getHostPorts_containers ParseIP name cs usage =
     usage @ map (\<lambda>p. \<lparr>podName = name,
                         ip = ParseIP (if HostIP p = [] then ''0.0.0.0'' else HostIP p),
                         port = HostPort p, protocol = Protocol p\<rparr>)
               (filter (\<lambda>p. HostPort p \<noteq> 0) (concat (map Ports cs)))"
  by (induction cs arbitrary: usage) (simp_all add: getHostPorts_ports_eq)

lemma getHostPorts_map:
  "getHostPorts ParseIP pod =
     map (\<lambda>p. \<lparr>podName = ObjectKeyFromObject pod,
                 ip = ParseIP (if HostIP p = [] then ''0.0.0.0'' else HostIP p),
                 port = HostPort p, protocol = Protocol p\<rparr>)
       (filter (\<lambda>p. HostPort p \<noteq> 0) (concat (map Ports (Containers pod))))"
  by (simp add: getHostPorts_def getHostPorts_containers_eq)

text \<open>
  C2, as the claim states it, fails: the one host port of \<open>pod_web\<close> has an empty protocol,
  and the entry made for it has the empty protocol too, not \<open>TCP\<close>.
\<close>

theorem getHostPorts_protocol_counterexample:
  "map protocol (getHostPorts ParseIP_sample pod_web) = [[]] \<and>
   map protocol (getHostPorts ParseIP_sample pod_web) \<noteq> [''TCP'']"
  by (simp add: getHostPorts_map pod_web_def port80_def)

text \<open>
  C2, amended: \<open>getHostPorts\<close> makes one entry per container port with a non-zero host
  port, in the order of the containers and of their ports, under the pod's key. The port
  and the protocol are copied as they are (an empty protocol stays empty); the IP is what
  \<open>net.ParseIP\<close> makes of the host IP, and of \<open>0.0.0.0\<close> when the host IP is empty, which
  is an unspecified address.
\<close>

theorem getHostPorts_entries:
  "getHostPorts ParseIP pod =
     map (\<lambda>p. \<lparr>podName = ObjectKeyFromObject pod,
                 ip = ParseIP (if HostIP p = [] then ''0.0.0.0'' else HostIP p),
                 port = HostPort p, protocol = Protocol p\<rparr>)
       (filter (\<lambda>p. HostPort p \<noteq> 0) (concat (map Ports (Containers pod)))) \<and>
   (ParseIP ''0.0.0.0'' = IPv4 0 0 0 0 \<longrightarrow>
      (\<forall>i<length (getHostPorts ParseIP pod).
         HostIP (filter (\<lambda>p. HostPort p \<noteq> 0) (concat (map Ports (Containers pod))) ! i) = [] \<longrightarrow>
         IsUnspecified (ip (getHostPorts ParseIP pod ! i))))"
proof (intro conjI impI allI)
  show "getHostPorts ParseIP pod =
     map (\<lambda>p. \<lparr>podName = ObjectKeyFromObject pod,
                 ip = ParseIP (if HostIP p = [] then ''0.0.0.0'' else HostIP p),
                 port = HostPort p, protocol = Protocol p\<rparr>)
       (filter (\<lambda>p. HostPort p \<noteq> 0) (concat (map Ports (Containers pod))))"
    by (rule getHostPorts_map)
next
  fix i
  assume parse: "ParseIP ''0.0.0.0'' = IPv4 0 0 0 0"
    and i: "i < length (getHostPorts ParseIP pod)"
    and empty: "HostIP (filter (\<lambda>p. HostPort p \<noteq> 0)
      (concat (map Ports (Containers pod))) ! i) = []"
  from i have "i < length (filter (\<lambda>p. HostPort p \<noteq> 0) (concat (map Ports (Containers pod))))"
    by (simp add: getHostPorts_map)
  with empty parse have "ip (getHostPorts ParseIP pod ! i) = IPv4 0 0 0 0"
    by (simp add: getHostPorts_map)
  then show "IsUnspecified (ip (getHostPorts ParseIP pod ! i))"
    by (simp add: IsUnspecified_iff IPv4zero_def)
qed

theorem getHostPorts_entries_witness:
  "getHostPorts ParseIP_sample pod_twice =
     [\<lparr>podName = \<lparr>Namespace = ''default'', Name = ''twice''\<rparr>, ip = IPv4 0 0 0 0, port = 80,
        protocol = ''TCP''\<rparr>,
      \<lparr>podName = \<lparr>Namespace = ''default'', Name = ''twice''\<rparr>, ip = IPv4 10 0 0 1, port = 80,
        protocol = ''TCP''\<rparr>] \<and>
   ParseIP_sample ''0.0.0.0'' = IPv4 0 0 0 0 \<and>
   HostIP (filter (\<lambda>p. HostPort p \<noteq> 0) (concat (map Ports (Containers pod_twice))) ! 0) = [] \<and>
   IsUnspecified (ip (getHostPorts ParseIP_sample pod_twice ! 0))"
proof -
  have parse: "ParseIP_sample ''0.0.0.0'' = IPv4 0 0 0 0"
    by (simp add: ParseIP_sample_def)
  have empty: "HostIP (filter (\<lambda>p. HostPort p \<noteq> 0)
      (concat (map Ports (Containers pod_twice))) ! 0) = []"
    by (simp add: pod_twice_def port80_def)
  note inst = getHostPorts_entries [of ParseIP_sample pod_twice]
  from inst have entries: "getHostPorts ParseIP_sample pod_twice =
     [\<lparr>podName = \<lparr>Namespace = ''default'', Name = ''twice''\<rparr>, ip = IPv4 0 0 0 0, port = 80,
        protocol = ''TCP''\<rparr>,
      \<lparr>podName = \<lparr>Namespace = ''default'', Name = ''twice''\<rparr>, ip = IPv4 10 0 0 1, port = 80,
        protocol = ''TCP''\<rparr>]"
    by (simp add: pod_twice_def port80_def ObjectKeyFromObject_def ParseIP_sample_def)
  then have "0 < length (getHostPorts ParseIP_sample pod_twice)"
    by simp
  with inst [THEN conjunct2, rule_format, OF parse _ empty]
  have "IsUnspecified (ip (getHostPorts ParseIP_sample pod_twice ! 0))"
    by simp
  with entries parse empty show ?thesis
    by simp
qed

subsection \<open>\<open>Add\<close>\<close>

lemma Add_existing_None:
  "Add_existing e res = None \<longleftrightarrow> (\<forall>x\<in>set res. \<not> matches e x)"
  by (induction res) simp_all

lemma Add_existing_Some:
  "Add_existing e res = Some err \<Longrightarrow>
     \<exists>x\<in>set res. matches e x \<and>
       err = Errorf ''%s conflicts with existing HostPort configuration %s'' [e, x]"
  by (induction res) (auto split: if_splits)

lemma Add_new_None:
  "Add_new new res = None \<longleftrightarrow> (\<forall>e\<in>set new. \<forall>x\<in>set res. \<not> matches e x)"
proof (induction new)
  case Nil
  then show ?case by simp
next
  case (Cons e new)
  show ?case
  proof (cases "Add_existing e res")
    case None
    with Cons Add_existing_None [of e res] show ?thesis by simp
  next
    case (Some err)
    with Add_existing_Some [OF Some] show ?thesis by auto
  qed
qed

lemma Add_new_Some:
  "Add_new new res = Some err \<Longrightarrow>
     \<exists>e\<in>set new. \<exists>x\<in>set res. matches e x \<and>
       err = Errorf ''%s conflicts with existing HostPort configuration %s'' [e, x]"
proof (induction new)
  case Nil
  then show ?case by simp
next
  case (Cons e new)
  show ?case
  proof (cases "Add_existing e res")
    case None
    with Cons show ?thesis by auto
  next
    case (Some err')
    with Cons.prems have "err' = err" by simp
    with Some Add_existing_Some [of e res err] show ?thesis by auto
  qed
qed

text \<open>
  C7: when an entry of the pod matches a reserved entry, \<open>Add\<close> returns an error made of
  such a pair (the new entry first, the reserved one second) and the ledger is as it was;
  when none does, \<open>Add\<close> returns no error and the ledger is the old one followed by all
  the entries of the pod.
\<close>

theorem Add_atomic:
  "(if \<exists>e\<in>set (getHostPorts ParseIP pod). \<exists>x\<in>set (reserved u). matches e x
    then \<exists>e\<in>set (getHostPorts ParseIP pod). \<exists>x\<in>set (reserved u). matches e x \<and>
           Add ParseIP u pod =
             (Some (Errorf ''%s conflicts with existing HostPort configuration %s'' [e, x]), u)
    else Add ParseIP u pod = (None, u\<lparr>reserved := reserved u @ getHostPorts ParseIP pod\<rparr>))"
proof (cases "Add_new (getHostPorts ParseIP pod) (reserved u)")
  case None
  then show ?thesis
    using Add_new_None [of "getHostPorts ParseIP pod" "reserved u"]
    by (simp add: Add_def)
next
  case (Some err)
  from Add_new_Some [OF Some] obtain e x where ex:
    "e \<in> set (getHostPorts ParseIP pod)" "x \<in> set (reserved u)" "matches e x"
    "err = Errorf ''%s conflicts with existing HostPort configuration %s'' [e, x]"
    by blast
  have "Add ParseIP u pod = (Some err, u)"
    using Some by (simp add: Add_def)
  with ex show ?thesis by auto
qed

theorem Add_atomic_witness:
  "Add ParseIP_sample \<lparr>reserved = getHostPorts ParseIP_sample pod_twice\<rparr> pod_other =
     (Some (Errorf ''%s conflicts with existing HostPort configuration %s''
        [\<lparr>podName = \<lparr>Namespace = ''default'', Name = ''other''\<rparr>, ip = IPv4 10 0 0 2,
           port = 80, protocol = ''TCP''\<rparr>,
         \<lparr>podName = \<lparr>Namespace = ''default'', Name = ''twice''\<rparr>, ip = IPv4 0 0 0 0,
           port = 80, protocol = ''TCP''\<rparr>]),
      \<lparr>reserved = getHostPorts ParseIP_sample pod_twice\<rparr>) \<and>
   Add ParseIP_sample \<lparr>reserved = getHostPorts ParseIP_sample pod_web\<rparr> pod_other =
     (None, \<lparr>reserved = getHostPorts ParseIP_sample pod_web @
                         getHostPorts ParseIP_sample pod_other\<rparr>)"
proof -
  have unspec: "IsUnspecified (IPv4 0 0 0 0)"
    by (simp add: IsUnspecified_iff IPv4zero_def)
  have differ: "\<not> Equal (IPv4 10 0 0 2) (IPv4 10 0 0 1)" "\<not> IsUnspecified (IPv4 10 0 0 2)"
    "\<not> IsUnspecified (IPv4 10 0 0 1)"
    by (simp_all add: IsUnspecified_iff Equal_def IPv4zero_def IPv4_def IPv6unspecified_def
        v4InV6Prefix_def)
  show ?thesis
    using Add_atomic [of ParseIP_sample pod_other
        "\<lparr>reserved = getHostPorts ParseIP_sample pod_twice\<rparr>"]
      Add_atomic [of ParseIP_sample pod_other
        "\<lparr>reserved = getHostPorts ParseIP_sample pod_web\<rparr>"]
    by (simp add: getHostPorts_map pod_twice_def pod_other_def pod_web_def port80_def
        ObjectKeyFromObject_def ParseIP_sample_def matches_def unspec differ)
qed

text \<open>
  C9: \<open>Add\<close> compares the entries of a pod with the reserved entries only. When two
  entries of one pod match each other, \<open>Add\<close> on the empty ledger still returns no error,
  and the ledger then holds all the entries of the pod, the two that match among them.
\<close>

theorem Add_ignores_own_conflicts:
  "i < j \<Longrightarrow> j < length (getHostPorts ParseIP pod) \<Longrightarrow>
   matches (getHostPorts ParseIP pod ! i) (getHostPorts ParseIP pod ! j) \<Longrightarrow>
   Add ParseIP NewHostPortUsage pod = (None, \<lparr>reserved = getHostPorts ParseIP pod\<rparr>) \<and>
   getHostPorts ParseIP pod ! i \<in> set (reserved (snd (Add ParseIP NewHostPortUsage pod))) \<and>
   getHostPorts ParseIP pod ! j \<in> set (reserved (snd (Add ParseIP NewHostPortUsage pod)))"
proof -
  assume "i < j" and j: "j < length (getHostPorts ParseIP pod)"
  have "Add_new (getHostPorts ParseIP pod) [] = None"
    by (simp add: Add_new_None)
  then have "Add ParseIP NewHostPortUsage pod = (None, \<lparr>reserved = getHostPorts ParseIP pod\<rparr>)"
    by (simp add: Add_def NewHostPortUsage_def)
  with \<open>i < j\<close> j show ?thesis by simp
qed

theorem Add_ignores_own_conflicts_witness:
  "(0::nat) < 1 \<and> 1 < length (getHostPorts ParseIP_sample pod_twice) \<and>
   matches (getHostPorts ParseIP_sample pod_twice ! 0) (getHostPorts ParseIP_sample pod_twice ! 1) \<and>
   Add ParseIP_sample NewHostPortUsage pod_twice =
     (None, \<lparr>reserved =
        [\<lparr>podName = \<lparr>Namespace = ''default'', Name = ''twice''\<rparr>, ip = IPv4 0 0 0 0,
           port = 80, protocol = ''TCP''\<rparr>,
         \<lparr>podName = \<lparr>Namespace = ''default'', Name = ''twice''\<rparr>, ip = IPv4 10 0 0 1,
           port = 80, protocol = ''TCP''\<rparr>]\<rparr>)"
proof -
  have unspec: "IsUnspecified (IPv4 0 0 0 0)"
    by (simp add: IsUnspecified_iff IPv4zero_def)
  have entries: "getHostPorts ParseIP_sample pod_twice =
     [\<lparr>podName = \<lparr>Namespace = ''default'', Name = ''twice''\<rparr>, ip = IPv4 0 0 0 0,
        port = 80, protocol = ''TCP''\<rparr>,
      \<lparr>podName = \<lparr>Namespace = ''default'', Name = ''twice''\<rparr>, ip = IPv4 10 0 0 1,
        port = 80, protocol = ''TCP''\<rparr>]"
    by (simp add: getHostPorts_map pod_twice_def port80_def ObjectKeyFromObject_def
        ParseIP_sample_def)
  have hyps: "(0::nat) < 1" "1 < length (getHostPorts ParseIP_sample pod_twice)"
    "matches (getHostPorts ParseIP_sample pod_twice ! 0)
       (getHostPorts ParseIP_sample pod_twice ! 1)"
    by (simp_all add: entries matches_def unspec)
  from Add_ignores_own_conflicts [OF hyps] hyps show ?thesis
    by (simp add: entries)
qed

section \<open>Properties of the ledger in the store\<close>

lemma length_elems: "valid_slice h s \<Longrightarrow> length (elems h s) = len s"
  by (cases "cap s = 0") (auto simp: valid_slice_def elems_def)

lemma append_slice_inplace:
  "len s + length xs \<le> cap s \<Longrightarrow>
   append_slice g h s xs =
     (h\<lparr>arrays := (arrays h)
         (base s := take (len s) (arrays h (base s)) @ xs @
                    drop (len s + length xs) (arrays h (base s)))\<rparr>,
      s\<lparr>len := len s + length xs\<rparr>)"
  by (simp add: append_slice_def Let_def)

lemma append_slice_grow:
  "\<not> len s + length xs \<le> cap s \<Longrightarrow>
   append_slice g h s xs =
     (h\<lparr>arrays := (arrays h)
         (next_array h := elems h s @ xs @
            replicate (max (len s + length xs) (g (cap s) (len s + length xs)) -
                       (len s + length xs)) zero_entry),
        next_array := Suc (next_array h)\<rparr>,
      \<lparr>base = next_array h, len = len s + length xs,
        cap = max (len s + length xs) (g (cap s) (len s + length xs))\<rparr>)"
  by (simp add: append_slice_def Let_def)

lemma append_slice_props:
  assumes v: "valid_slice h s" and r: "append_slice g h s xs = (h', s')"
  shows "elems h' s' = elems h s @ xs"
    and "valid_slice h' s'"
    and "next_array h \<le> next_array h'"
    and "structs h' = structs h" and "next_struct h' = next_struct h"
    and "base s' = base s \<and> cap s' = cap s \<or>
         base s' = next_array h \<and> next_array h' = Suc (next_array h)"
proof -
  let ?n = "len s + length xs"
  have all: "elems h' s' = elems h s @ xs \<and> valid_slice h' s' \<and> next_array h \<le> next_array h' \<and>
    structs h' = structs h \<and> next_struct h' = next_struct h \<and>
    (base s' = base s \<and> cap s' = cap s \<or>
     base s' = next_array h \<and> next_array h' = Suc (next_array h))"
  proof (cases "?n \<le> cap s")
    case True
    note r' = r [unfolded append_slice_inplace [OF True]]
    show ?thesis
    proof (cases "xs = []")
      case True
      with r' v show ?thesis
        by (auto simp: elems_def valid_slice_def)
    next
      case False
      with True have "0 < cap s" by (cases xs) simp_all
      with v have "0 < cap s" "length (arrays h (base s)) = cap s" "base s < next_array h"
        by (simp_all add: valid_slice_def)
      moreover from False have "0 < length xs" by simp
      with True have "len s < cap s" by linarith
      ultimately show ?thesis using True r'
        by (auto simp: elems_def valid_slice_def min_def)
    qed
  next
    case False
    note r' = r [unfolded append_slice_grow [OF False]]
    from length_elems [OF v] r' show ?thesis
      by (auto simp: elems_def valid_slice_def)
  qed
  from all show "elems h' s' = elems h s @ xs" by simp
  from all show "valid_slice h' s'" by simp
  from all show "next_array h \<le> next_array h'" by simp
  from all show "structs h' = structs h" by simp
  from all show "next_struct h' = next_struct h" by simp
  from all show "base s' = base s \<and> cap s' = cap s \<or>
         base s' = next_array h \<and> next_array h' = Suc (next_array h)" by simp
qed

lemma append_slice_frame:
  assumes v: "valid_slice h s" and r: "append_slice g h s xs = (h', s')"
    and t: "valid_slice h t" and a: "apart s t"
  shows "elems h' t = elems h t" and "valid_slice h' t" and "apart s' t"
    and "0 < cap t \<Longrightarrow> arrays h' (base t) = arrays h (base t)"
proof -
  let ?n = "len s + length xs"
  have arr: "arrays h' (base t) = arrays h (base t)" if "0 < cap t"
  proof (cases "?n \<le> cap s")
    case True
    note r' = r [unfolded append_slice_inplace [OF True]]
    show ?thesis
    proof (cases "0 < cap s")
      case True
      with a that have "base s \<noteq> base t" by (simp add: apart_def)
      with r' show ?thesis by auto
    next
      case False
      with \<open>?n \<le> cap s\<close> have "len s = 0" "xs = []" by simp_all
      with r' show ?thesis by auto
    qed
  next
    case False
    note r' = r [unfolded append_slice_grow [OF False]]
    from t that have "base t < next_array h" by (simp add: valid_slice_def)
    with r' show ?thesis by auto
  qed
  then show "0 < cap t \<Longrightarrow> arrays h' (base t) = arrays h (base t)" .
  show "elems h' t = elems h t"
  proof (cases "0 < cap t")
    case True
    with arr show ?thesis by (simp add: elems_def)
  next
    case False
    with t have "len t = 0" by (simp add: valid_slice_def)
    then show ?thesis by (simp add: elems_def)
  qed
  from append_slice_props(3) [OF v r] t arr show "valid_slice h' t"
    by (auto simp: valid_slice_def)
  from append_slice_props(6) [OF v r] a t show "apart s' t"
    by (auto simp: apart_def valid_slice_def)
qed

lemma frames_refl: "frames h s h s"
  by (simp add: frames_def)

lemma frames_trans: "frames h s h1 s1 \<Longrightarrow> frames h1 s1 h2 s2 \<Longrightarrow> frames h s h2 s2"
  unfolding frames_def by metis

lemma append_slice_frames:
  "valid_slice h s \<Longrightarrow> append_slice g h s xs = (h', s') \<Longrightarrow> frames h s h' s'"
  unfolding frames_def
  by (intro allI impI conjI)
    (erule conjE, rule append_slice_frame, assumption+)+

lemma NewHostPortUsage_h_valid:
  "valid_usage (fst (NewHostPortUsage_h h)) (snd (NewHostPortUsage_h h)) \<and>
   Reserved (fst (NewHostPortUsage_h h)) (snd (NewHostPortUsage_h h)) = []"
  by (simp add: NewHostPortUsage_h_def valid_usage_def valid_slice_def Reserved_def elems_def)

lemma DeletePod_loop_filter:
  "DeletePod_loop key es remaining = remaining @ filter (\<lambda>e. podName e \<noteq> key) es"
  by (induction es arbitrary: remaining) simp_all

lemma DeletePod_h_loop_props:
  assumes "valid_slice h src" and "valid_slice h r" and "apart r src"
    and "\<forall>i\<in>set idx. i < len src"
    and "DeletePod_h_loop g key src idx h r = (h', r')"
  shows "elems h' r' = elems h r @ filter (\<lambda>e. podName e \<noteq> key) (map (\<lambda>i. elems h src ! i) idx) \<and>
    valid_slice h' r' \<and> frames h r h' r' \<and> structs h' = structs h \<and>
    next_struct h' = next_struct h"
  using assms
proof (induction idx arbitrary: h r)
  case Nil
  then show ?case by (simp add: frames_refl)
next
  case (Cons i idx)
  from Cons.prems(4) have i: "i < len src" by simp
  with Cons.prems(1) have capsrc: "0 < cap src" by (simp add: valid_slice_def)
  have e: "arrays h (base src) ! i = elems h src ! i"
    using i by (simp add: elems_def)
  show ?case
  proof (cases "podName (elems h src ! i) \<noteq> key")
    case False
    with Cons.prems(5) e have "DeletePod_h_loop g key src idx h r = (h', r')"
      by simp
    from Cons.IH [OF Cons.prems(1-3) _ this] Cons.prems(4) False show ?thesis
      by simp
  next
    case True
    obtain h1 r1 where ap: "append_slice g h r [elems h src ! i] = (h1, r1)"
      by (cases "append_slice g h r [elems h src ! i]")
    with True Cons.prems(5) e have loop: "DeletePod_h_loop g key src idx h1 r1 = (h', r')"
      by simp
    note p = append_slice_props [OF Cons.prems(2) ap]
    note f = append_slice_frame [OF Cons.prems(2) ap Cons.prems(1,3)]
    from Cons.prems(4) have idx: "\<forall>i\<in>set idx. i < len src" by simp
    from Cons.IH [OF f(2) p(2) f(3) idx loop] f(1)
    have "elems h' r' = elems h1 r1 @
        filter (\<lambda>e. podName e \<noteq> key) (map (\<lambda>i. elems h src ! i) idx)"
      and rest: "valid_slice h' r'" "frames h1 r1 h' r'" "structs h' = structs h1"
        "next_struct h' = next_struct h1"
      by simp_all
    with p(1) True have "elems h' r' = elems h r @
        filter (\<lambda>e. podName e \<noteq> key) (map (\<lambda>i. elems h src ! i) (i # idx))"
      by simp
    moreover from append_slice_frames [OF Cons.prems(2) ap] rest(2)
    have "frames h r h' r'" by (rule frames_trans)
    ultimately show ?thesis using rest p(4,5) by simp
  qed
qed

lemma apart_nil: "apart \<lparr>base = b, len = 0, cap = 0\<rparr> t"
  by (simp add: apart_def)

lemma valid_nil: "valid_slice h \<lparr>base = b, len = 0, cap = 0\<rparr>"
  by (simp add: valid_slice_def)

lemma apart_sym: "apart s t \<Longrightarrow> apart t s"
  by (auto simp: apart_def)

lemma elems_structs_upd [simp]: "elems (h\<lparr>structs := f\<rparr>) s = elems h s"
  by (simp add: elems_def)

lemma valid_structs_upd [simp]: "valid_slice (h\<lparr>structs := f\<rparr>) s = valid_slice h s"
  by (simp add: valid_slice_def)

lemma elems_next_struct_upd [simp]: "elems (h\<lparr>next_struct := n\<rparr>) s = elems h s"
  by (simp add: elems_def)

lemma valid_next_struct_upd [simp]: "valid_slice (h\<lparr>next_struct := n\<rparr>) s = valid_slice h s"
  by (simp add: valid_slice_def)

text \<open>
  \<open>DeletePod\<close> and \<open>Add\<close> in the store do to the entries of their ledger what \<open>DeletePod\<close>
  and \<open>Add\<close> on lists of entries do, and leave the entries of every other valid ledger
  (for \<open>Add\<close>: of every one apart from theirs) as they are.
\<close>

lemma DeletePod_h_props:
  assumes "valid_usage h u"
  shows "Reserved (DeletePod_h g h u key) u =
      reserved (DeletePod \<lparr>reserved = Reserved h u\<rparr> key)"
    and "valid_usage (DeletePod_h g h u key) u"
    and "next_struct (DeletePod_h g h u key) = next_struct h"
    and "w \<noteq> u \<Longrightarrow> valid_slice h (structs h w) \<Longrightarrow>
      Reserved (DeletePod_h g h u key) w = Reserved h w \<and>
      valid_slice (DeletePod_h g h u key) (structs (DeletePod_h g h u key) w) \<and>
      apart (structs (DeletePod_h g h u key) u) (structs (DeletePod_h g h u key) w)"
proof -
  let ?src = "structs h u"
  let ?nil = "\<lparr>base = 0, len = 0, cap = 0\<rparr>"
  obtain h1 r where loop: "DeletePod_h_loop g key ?src [0..<len ?src] h ?nil = (h1, r)"
    by (cases "DeletePod_h_loop g key ?src [0..<len ?src] h ?nil")
  then have res: "DeletePod_h g h u key = h1\<lparr>structs := (structs h1)(u := r)\<rparr>"
    by (simp add: DeletePod_h_def)
  from assms have v: "valid_slice h ?src" and u: "u < next_struct h"
    by (simp_all add: valid_usage_def)
  have idx: "\<forall>i\<in>set [0..<len ?src]. i < len ?src" by simp
  note p = DeletePod_h_loop_props [OF v valid_nil apart_nil idx loop]
  have "map (\<lambda>i. elems h ?src ! i) [0..<len ?src] = elems h ?src"
    using length_elems [OF v] by (metis map_nth)
  with p have el: "elems h1 r = filter (\<lambda>e. podName e \<noteq> key) (elems h ?src)"
    by (simp add: elems_def)
  show "Reserved (DeletePod_h g h u key) u =
      reserved (DeletePod \<lparr>reserved = Reserved h u\<rparr> key)"
    using el by (simp add: res Reserved_def DeletePod_def DeletePod_loop_filter)
  show "valid_usage (DeletePod_h g h u key) u"
    using p u by (simp add: res valid_usage_def)
  show "next_struct (DeletePod_h g h u key) = next_struct h"
    using p by (simp add: res)
  show "Reserved (DeletePod_h g h u key) w = Reserved h w \<and>
      valid_slice (DeletePod_h g h u key) (structs (DeletePod_h g h u key) w) \<and>
      apart (structs (DeletePod_h g h u key) u) (structs (DeletePod_h g h u key) w)"
    if "w \<noteq> u" "valid_slice h (structs h w)"
  proof -
    from p have "frames h ?nil h1 r" and st: "structs h1 = structs h" by simp_all
    with that(2) apart_nil [of 0 "structs h w"]
    have "elems h1 (structs h w) = elems h (structs h w)" "valid_slice h1 (structs h w)"
      "apart r (structs h w)"
      by (simp_all add: frames_def)
    with that(1) st show ?thesis
      by (simp add: res Reserved_def)
  qed
qed

lemma Add_h_props:
  assumes "valid_usage h u"
  shows "fst (Add_h g P h u pod) = fst (Add P \<lparr>reserved = Reserved h u\<rparr> pod)"
    and "Reserved (snd (Add_h g P h u pod)) u =
      reserved (snd (Add P \<lparr>reserved = Reserved h u\<rparr> pod))"
    and "valid_usage (snd (Add_h g P h u pod)) u"
    and "next_struct (snd (Add_h g P h u pod)) = next_struct h"
    and "w \<noteq> u \<Longrightarrow> valid_slice h (structs h w) \<Longrightarrow> apart (structs h u) (structs h w) \<Longrightarrow>
      Reserved (snd (Add_h g P h u pod)) w = Reserved h w \<and>
      valid_slice (snd (Add_h g P h u pod)) (structs (snd (Add_h g P h u pod)) w) \<and>
      apart (structs (snd (Add_h g P h u pod)) u) (structs (snd (Add_h g P h u pod)) w)"
proof -
  let ?new = "getHostPorts P pod"
  from assms have v: "valid_slice h (structs h u)" and u: "u < next_struct h"
    by (simp_all add: valid_usage_def)
  show "fst (Add_h g P h u pod) = fst (Add P \<lparr>reserved = Reserved h u\<rparr> pod)"
    by (simp add: Add_h_def Add_def Reserved_def Let_def split: option.splits prod.splits)
  obtain h1 s1 where ap: "append_slice g h (structs h u) ?new = (h1, s1)"
    by (cases "append_slice g h (structs h u) ?new")
  note p = append_slice_props [OF v ap]
  show "Reserved (snd (Add_h g P h u pod)) u =
      reserved (snd (Add P \<lparr>reserved = Reserved h u\<rparr> pod))"
    using ap p(1) by (simp add: Add_h_def Add_def Reserved_def Let_def split: option.splits)
  show "valid_usage (snd (Add_h g P h u pod)) u"
    using ap p assms by (simp add: Add_h_def Let_def valid_usage_def split: option.splits)
  show "next_struct (snd (Add_h g P h u pod)) = next_struct h"
    using ap p by (simp add: Add_h_def Let_def split: option.splits)
  show "Reserved (snd (Add_h g P h u pod)) w = Reserved h w \<and>
      valid_slice (snd (Add_h g P h u pod)) (structs (snd (Add_h g P h u pod)) w) \<and>
      apart (structs (snd (Add_h g P h u pod)) u) (structs (snd (Add_h g P h u pod)) w)"
    if "w \<noteq> u" "valid_slice h (structs h w)" "apart (structs h u) (structs h w)"
  proof -
    note f = append_slice_frame [OF v ap that(2,3)]
    show ?thesis
      using ap p(4) f that
      by (simp add: Add_h_def Let_def Reserved_def split: option.splits)
  qed
qed

lemma separate_sym: "separate h u c \<Longrightarrow> separate h c u"
  by (auto simp: separate_def apart_sym)

lemma apply_op_h_separate:
  assumes "separate h x y"
  shows "separate (apply_op_h g P x h op) x y"
    and "Reserved (apply_op_h g P x h op) y = Reserved h y"
proof -
  from assms have x: "valid_usage h x" and y: "valid_usage h y" and ne: "y \<noteq> x"
    and ap: "apart (structs h x) (structs h y)"
    by (auto simp: separate_def)
  from y have vy: "valid_slice h (structs h y)" and ly: "y < next_struct h"
    by (simp_all add: valid_usage_def)
  have "separate (apply_op_h g P x h op) x y \<and>
    Reserved (apply_op_h g P x h op) y = Reserved h y"
  proof (cases op)
    case (OpAdd pod)
    from Add_h_props(3,4) [OF x, of g P pod] Add_h_props(5) [OF x ne vy ap, of g P pod] ne ly
    show ?thesis
      by (simp add: OpAdd separate_def valid_usage_def)
  next
    case (OpDeletePod key)
    from DeletePod_h_props(2,3) [OF x, of g key] DeletePod_h_props(4) [OF x ne vy, of g key] ne ly
    show ?thesis
      by (simp add: OpDeletePod separate_def valid_usage_def)
  qed
  then show "separate (apply_op_h g P x h op) x y"
    and "Reserved (apply_op_h g P x h op) y = Reserved h y"
    by simp_all
qed

lemma apply_ops_h_separate:
  "separate h u c \<Longrightarrow> separate (apply_ops_h g P u c h tops) u c"
proof (induction tops arbitrary: h)
  case Nil
  then show ?case by simp
next
  case (Cons t tops)
  obtain onCopy op where t: "t = (onCopy, op)" by (cases t)
  have "separate (apply_op_h g P (if onCopy then c else u) h op) u c"
  proof (cases onCopy)
    case True
    with apply_op_h_separate(1) [OF separate_sym [OF Cons.prems], of g P op]
    show ?thesis by (simp add: separate_sym)
  next
    case False
    with apply_op_h_separate(1) [OF Cons.prems, of g P op] show ?thesis by simp
  qed
  from Cons.IH [OF this] t show ?case by simp
qed

lemma Copy_h_props:
  assumes "valid_usage h u" and "Copy_h g h u = (h1, c)"
  shows "Reserved h1 c = Reserved h u" and "Reserved h1 u = Reserved h u"
    and "separate h1 u c"
proof -
  let ?nil = "\<lparr>base = 0, len = 0, cap = 0\<rparr>"
  from assms(1) have v: "valid_slice h (structs h u)" and u: "u < next_struct h"
    by (simp_all add: valid_usage_def)
  obtain h0 s1 where ap: "append_slice g h ?nil (elems h (structs h u)) = (h0, s1)"
    by (cases "append_slice g h ?nil (elems h (structs h u))")
  with assms(2) have h1: "h1 = h0\<lparr>structs := (structs h0)(next_struct h0 := s1),
      next_struct := Suc (next_struct h0)\<rparr>" and c: "c = next_struct h0"
    by (auto simp: Copy_h_def)
  note p = append_slice_props [OF valid_nil ap]
  note f = append_slice_frame [OF valid_nil ap v apart_nil]
  from p(5) u c have ne: "u \<noteq> c" by simp
  have "elems h ?nil = []" by (simp add: elems_def)
  with p(1) show "Reserved h1 c = Reserved h u"
    by (simp add: h1 c Reserved_def)
  from f(1) p(4) ne show "Reserved h1 u = Reserved h u"
    by (simp add: h1 c Reserved_def)
  from f(2,3) p(2,4,5) ne u show "separate h1 u c"
    by (simp add: h1 c separate_def valid_usage_def apart_sym)
qed

lemma Copy_h_refines:
  "valid_usage h u \<Longrightarrow> Copy_h g h u = (h1, c) \<Longrightarrow>
   Reserved h1 c = reserved (Copy \<lparr>reserved = Reserved h u\<rparr>)"
  by (simp add: Copy_h_props(1) Copy_def)

text \<open>
  C8: let \<open>c\<close> be the copy of a valid ledger \<open>u\<close>. The copy has the entries of \<open>u\<close>, and
  \<open>u\<close> keeps its own. After any run of \<open>Add\<close> and \<open>DeletePod\<close> calls on \<open>u\<close> and on \<open>c\<close>, one
  more call on \<open>c\<close> leaves the entries of \<open>u\<close> as they are, and one more call on \<open>u\<close>
  leaves the entries of \<open>c\<close> as they are.
\<close>

theorem Copy_independent:
  assumes "valid_usage h u" and "Copy_h growslice h u = (h1, c)"
    and "h' = apply_ops_h growslice ParseIP u c h1 tops"
  shows "Reserved h1 c = Reserved h u \<and> Reserved h1 u = Reserved h u \<and>
    Reserved (apply_op_h growslice ParseIP c h' op) u = Reserved h' u \<and>
    Reserved (apply_op_h growslice ParseIP u h' op) c = Reserved h' c"
proof -
  note copy = Copy_h_props [OF assms(1,2)]
  from apply_ops_h_separate [OF copy(3)] assms(3) have sep: "separate h' u c"
    by simp
  from copy(1,2) apply_op_h_separate(2) [OF sep] apply_op_h_separate(2) [OF separate_sym [OF sep]]
  show ?thesis by simp
qed

lemma sample_entries:
  "getHostPorts ParseIP_sample pod_twice =
     [\<lparr>podName = \<lparr>Namespace = ''default'', Name = ''twice''\<rparr>, ip = IPv4 0 0 0 0,
        port = 80, protocol = ''TCP''\<rparr>,
      \<lparr>podName = \<lparr>Namespace = ''default'', Name = ''twice''\<rparr>, ip = IPv4 10 0 0 1,
        port = 80, protocol = ''TCP''\<rparr>]"
  "getHostPorts ParseIP_sample pod_web =
     [\<lparr>podName = \<lparr>Namespace = ''default'', Name = ''web''\<rparr>, ip = IPv4 0 0 0 0,
        port = 80, protocol = []\<rparr>]"
  by (simp_all add: getHostPorts_map pod_twice_def pod_web_def port80_def ObjectKeyFromObject_def
      ParseIP_sample_def)

lemma sample_heap_valid:
  "valid_usage sample_heap 1"
  "Reserved sample_heap 1 = getHostPorts ParseIP_sample pod_twice"
  by (simp_all add: valid_usage_def valid_slice_def Reserved_def elems_def sample_heap_def
      sample_entries)

lemma sample_heap_changes:
  "Reserved (apply_op_h double ParseIP_sample 1 (fst (Copy_h double sample_heap 1))
      (OpDeletePod \<lparr>Namespace = ''default'', Name = ''twice''\<rparr>)) 1 = []"
  "Reserved (apply_op_h double ParseIP_sample (snd (Copy_h double sample_heap 1))
      (fst (Copy_h double sample_heap 1)) (OpAdd pod_web)) (snd (Copy_h double sample_heap 1)) =
     getHostPorts ParseIP_sample pod_twice @ getHostPorts ParseIP_sample pod_web"
proof -
  have copy: "Copy_h double sample_heap 1 =
      (fst (Copy_h double sample_heap 1), snd (Copy_h double sample_heap 1))"
    by simp
  note c = Copy_h_props [OF sample_heap_valid(1) copy]
  from c(3) have u: "valid_usage (fst (Copy_h double sample_heap 1)) 1"
    and v: "valid_usage (fst (Copy_h double sample_heap 1)) (snd (Copy_h double sample_heap 1))"
    by (simp_all add: separate_def)
  show "Reserved (apply_op_h double ParseIP_sample 1 (fst (Copy_h double sample_heap 1))
      (OpDeletePod \<lparr>Namespace = ''default'', Name = ''twice''\<rparr>)) 1 = []"
    using DeletePod_h_props(1) [OF u, of double "\<lparr>Namespace = ''default'', Name = ''twice''\<rparr>"]
      c(2) sample_heap_valid(2)
    by (simp add: DeletePod_def sample_entries)
  have nomatch: "Add_new (getHostPorts ParseIP_sample pod_web)
      (getHostPorts ParseIP_sample pod_twice) = None"
    by (simp add: sample_entries matches_def)
  show "Reserved (apply_op_h double ParseIP_sample (snd (Copy_h double sample_heap 1))
      (fst (Copy_h double sample_heap 1)) (OpAdd pod_web)) (snd (Copy_h double sample_heap 1)) =
     getHostPorts ParseIP_sample pod_twice @ getHostPorts ParseIP_sample pod_web"
    using Add_h_props(2) [OF v, of double ParseIP_sample pod_web] c(1) sample_heap_valid(2)
    by (simp add: Add_def nomatch)
qed

lemma sample_copy_run:
  "Reserved (apply_ops_h double ParseIP_sample 1 (snd (Copy_h double sample_heap 1))
      (fst (Copy_h double sample_heap 1))
      [(True, OpAdd pod_web), (False, OpDeletePod \<lparr>Namespace = ''default'', Name = ''twice''\<rparr>)]) 1 = []"
  "Reserved (apply_ops_h double ParseIP_sample 1 (snd (Copy_h double sample_heap 1))
      (fst (Copy_h double sample_heap 1))
      [(True, OpAdd pod_web), (False, OpDeletePod \<lparr>Namespace = ''default'', Name = ''twice''\<rparr>)])
      (snd (Copy_h double sample_heap 1)) =
    getHostPorts ParseIP_sample pod_twice @ getHostPorts ParseIP_sample pod_web"
proof -
  let ?c = "snd (Copy_h double sample_heap 1)"
  let ?h1 = "fst (Copy_h double sample_heap 1)"
  let ?h2 = "apply_op_h double ParseIP_sample ?c ?h1 (OpAdd pod_web)"
  let ?key = "\<lparr>Namespace = ''default'', Name = ''twice''\<rparr>"
  have copy: "Copy_h double sample_heap 1 = (?h1, ?c)" by simp
  note c = Copy_h_props [OF sample_heap_valid(1) copy]
  note s2 = apply_op_h_separate [OF separate_sym [OF c(3)], of double ParseIP_sample "OpAdd pod_web"]
  from s2(1) have u2: "valid_usage ?h2 1" by (simp add: separate_def)
  from s2(2) c(2) sample_heap_valid(2)
  have r2: "Reserved ?h2 1 = getHostPorts ParseIP_sample pod_twice" by simp
  from DeletePod_h_props(1) [OF u2, of double ?key] r2
  show "Reserved (apply_ops_h double ParseIP_sample 1 ?c ?h1
      [(True, OpAdd pod_web), (False, OpDeletePod ?key)]) 1 = []"
    by (simp add: DeletePod_def sample_entries)
  note s3 = apply_op_h_separate [OF separate_sym [OF s2(1)], of double ParseIP_sample "OpDeletePod ?key"]
  from s3(2) sample_heap_changes(2)
  show "Reserved (apply_ops_h double ParseIP_sample 1 ?c ?h1
      [(True, OpAdd pod_web), (False, OpDeletePod ?key)]) ?c =
    getHostPorts ParseIP_sample pod_twice @ getHostPorts ParseIP_sample pod_web"
    by simp
qed

theorem Copy_independent_witness:
  "valid_usage sample_heap 1 \<and>
   Reserved (fst (Copy_h double sample_heap 1)) (snd (Copy_h double sample_heap 1)) =
     getHostPorts ParseIP_sample pod_twice \<and>
   Reserved (apply_op_h double ParseIP_sample (snd (Copy_h double sample_heap 1))
      (fst (Copy_h double sample_heap 1)) (OpAdd pod_web)) 1 =
     getHostPorts ParseIP_sample pod_twice \<and>
   Reserved (apply_op_h double ParseIP_sample 1
      (fst (Copy_h double sample_heap 1)) (OpDeletePod \<lparr>Namespace = ''default'', Name = ''twice''\<rparr>))
      (snd (Copy_h double sample_heap 1)) =
     getHostPorts ParseIP_sample pod_twice \<and>
   Reserved (apply_op_h double ParseIP_sample (snd (Copy_h double sample_heap 1))
      (apply_ops_h double ParseIP_sample 1 (snd (Copy_h double sample_heap 1))
         (fst (Copy_h double sample_heap 1))
         [(True, OpAdd pod_web), (False, OpDeletePod \<lparr>Namespace = ''default'', Name = ''twice''\<rparr>)])
      (OpAdd pod_dns)) 1 = [] \<and>
   Reserved (apply_op_h double ParseIP_sample 1
      (apply_ops_h double ParseIP_sample 1 (snd (Copy_h double sample_heap 1))
         (fst (Copy_h double sample_heap 1))
         [(True, OpAdd pod_web), (False, OpDeletePod \<lparr>Namespace = ''default'', Name = ''twice''\<rparr>)])
      (OpAdd pod_dns)) (snd (Copy_h double sample_heap 1)) =
     getHostPorts ParseIP_sample pod_twice @ getHostPorts ParseIP_sample pod_web"
proof -
  let ?c = "snd (Copy_h double sample_heap 1)"
  let ?h1 = "fst (Copy_h double sample_heap 1)"
  let ?key = "\<lparr>Namespace = ''default'', Name = ''twice''\<rparr>"
  let ?run = "[(True, OpAdd pod_web), (False, OpDeletePod ?key)]"
  have copy: "Copy_h double sample_heap 1 = (?h1, ?c)"
    by simp
  have run0: "?h1 = apply_ops_h double ParseIP_sample 1 ?c ?h1 []"
    by simp
  have run: "apply_ops_h double ParseIP_sample 1 ?c ?h1 ?run =
      apply_ops_h double ParseIP_sample 1 ?c ?h1 ?run"
    by simp
  from Copy_independent [OF sample_heap_valid(1) copy run0, of "OpAdd pod_web"]
    Copy_independent [OF sample_heap_valid(1) copy run0, of "OpDeletePod ?key"]
    Copy_independent [OF sample_heap_valid(1) copy run, of "OpAdd pod_dns"]
    sample_heap_valid sample_copy_run
  show ?thesis by simp
qed

text \<open>
  The store does tell sharing: of two ledgers with one slice, an \<open>Add\<close> on the first
  overwrites what an \<open>Add\<close> on the second has reserved.
\<close>

lemma shared_slice_interferes:
  "Reserved (apply_op_h double ParseIP_sample 2 shared_heap (OpAdd pod_web)) 2 =
     getHostPorts ParseIP_sample pod_twice @ getHostPorts ParseIP_sample pod_web"
  "Reserved (apply_op_h double ParseIP_sample 1
      (apply_op_h double ParseIP_sample 2 shared_heap (OpAdd pod_web)) (OpAdd pod_dns)) 2 =
     getHostPorts ParseIP_sample pod_twice @ getHostPorts ParseIP_sample pod_dns"
proof -
  have dns: "getHostPorts ParseIP_sample pod_dns =
     [\<lparr>podName = \<lparr>Namespace = ''default'', Name = ''dns''\<rparr>, ip = IPv4 0 0 0 0,
        port = 53, protocol = ''UDP''\<rparr>]"
    by (simp add: getHostPorts_map pod_dns_def ObjectKeyFromObject_def ParseIP_sample_def)
  have first: "apply_op_h double ParseIP_sample 2 shared_heap (OpAdd pod_web) =
     shared_heap\<lparr>arrays := (arrays shared_heap)
        (1 := getHostPorts ParseIP_sample pod_twice @ getHostPorts ParseIP_sample pod_web @
              [zero_entry]),
       structs := (structs shared_heap)(2 := \<lparr>base = 1, len = 3, cap = 4\<rparr>)\<rparr>"
    by (simp add: Add_h_def shared_heap_def sample_heap_def elems_def sample_entries
        matches_def append_slice_def Let_def)
  show "Reserved (apply_op_h double ParseIP_sample 2 shared_heap (OpAdd pod_web)) 2 =
     getHostPorts ParseIP_sample pod_twice @ getHostPorts ParseIP_sample pod_web"
    unfolding first
    by (simp add: Reserved_def elems_def shared_heap_def sample_heap_def sample_entries)
  show "Reserved (apply_op_h double ParseIP_sample 1
      (apply_op_h double ParseIP_sample 2 shared_heap (OpAdd pod_web)) (OpAdd pod_dns)) 2 =
     getHostPorts ParseIP_sample pod_twice @ getHostPorts ParseIP_sample pod_dns"
    unfolding first
    by (simp add: Add_h_def Reserved_def shared_heap_def sample_heap_def elems_def sample_entries
        dns matches_def append_slice_def Let_def)
qed

section \<open>Properties of the resource accounting\<close>

lemma viableInstance_loop_eq:
  "viableInstance_loop itResources remaining viable \<longleftrightarrow>
     viable \<and> (\<forall>(r, q)\<in>set remaining. index itResources r \<le> q)"
  by (induction itResources remaining viable rule: viableInstance_loop.induct)
    (auto simp: Cmp_def)

lemma filterByRemainingResources_loop_eq:
  "filterByRemainingResources_loop its remaining filtered =
     filtered @ filter (\<lambda>it. \<forall>(r, q)\<in>set remaining. index (Resources it) r \<le> q) its"
  by (induction its arbitrary: filtered) (simp_all add: viableInstance_loop_eq)

text \<open>
  C5: \<open>filterByRemainingResources\<close> keeps exactly the instance types whose quantity of
  every resource of \<open>remaining\<close> is at most the remaining quantity (a resource that the
  instance type does not list counts as zero), and keeps them in the order of the input.
\<close>

theorem filterByRemainingResources_filter:
  "filterByRemainingResources its remaining =
     filter (\<lambda>it. \<forall>(r, q)\<in>set remaining. index (Resources it) r \<le> q) its"
  by (simp add: filterByRemainingResources_def filterByRemainingResources_loop_eq)

theorem filterByRemainingResources_filter_witness:
  "filterByRemainingResources [large, small, medium, large] [(''cpu'', 8), (''memory'', 16)] =
     [small, medium]"
  using filterByRemainingResources_filter [of "[large, small, medium, large]"
      "[(''cpu'', 8), (''memory'', 16)]"]
  by (simp add: small_def medium_def large_def index_def)

lemma update_fresh: "k \<notin> fst ` set al \<Longrightarrow> AList.update k v al = al @ [(k, v)]"
  by (induction al) auto

lemma subtractMax_loop_keys:
  "fst ` set (subtractMax_loop itResources remaining result) =
     fst ` set result \<union> fst ` set remaining"
  by (induction itResources remaining result rule: subtractMax_loop.induct)
    (auto simp: dom_update)

lemma subtractMax_loop_distinct:
  "distinct (map fst remaining) \<Longrightarrow> fst ` set result \<inter> fst ` set remaining = {} \<Longrightarrow>
   subtractMax_loop itResources remaining result =
     result @ map (\<lambda>(k, v). (k, v - index itResources k)) remaining"
proof (induction itResources remaining result rule: subtractMax_loop.induct)
  case (1 itResources result)
  then show ?case by simp
next
  case (2 itResources k v rest result)
  have fresh: "k \<notin> fst ` set result"
    using "2.prems"(2) by auto
  have "fst ` set (AList.update k (v - index itResources k) result) \<inter> fst ` set rest = {}"
    using "2.prems" by (auto simp: dom_update)
  with "2.IH" "2.prems"(1) show ?case
    by (simp add: update_fresh [OF fresh])
qed

lemma subtractMax_distinct:
  "distinct (map fst remaining) \<Longrightarrow> its \<noteq> [] \<Longrightarrow>
   subtractMax remaining its =
     map (\<lambda>(k, v). (k, v - index (MaxResources (map Resources its)) k)) remaining"
  by (simp add: subtractMax_def subtractMax_loop_distinct)

text \<open>
  C10: \<open>subtractMax\<close> returns \<open>remaining\<close> itself for the empty list of instance types;
  for a non-empty list the resources of the result are the resources of \<open>remaining\<close>,
  in the same order when \<open>remaining\<close> names no resource twice.
\<close>

theorem subtractMax_keys:
  "subtractMax remaining [] = remaining \<and>
   (its \<noteq> [] \<longrightarrow>
      fst ` set (subtractMax remaining its) = fst ` set remaining) \<and>
   (its \<noteq> [] \<longrightarrow> distinct (map fst remaining) \<longrightarrow>
      map fst (subtractMax remaining its) = map fst remaining)"
proof (intro conjI impI)
  show "subtractMax remaining [] = remaining"
    by (simp add: subtractMax_def)
next
  assume "its \<noteq> []"
  then show "fst ` set (subtractMax remaining its) = fst ` set remaining"
    by (simp add: subtractMax_def subtractMax_loop_keys)
next
  assume "its \<noteq> []" and "distinct (map fst remaining)"
  then show "map fst (subtractMax remaining its) = map fst remaining"
    by (simp add: subtractMax_distinct case_prod_unfold)
qed

theorem subtractMax_keys_witness:
  "subtractMax [(''cpu'', 10), (''pods'', 5)] [] = [(''cpu'', 10), (''pods'', 5)] \<and>
   [small, large] \<noteq> [] \<and> distinct (map fst [(''cpu'', 10::int), (''pods'', 5)]) \<and>
   map fst (subtractMax [(''cpu'', 10), (''pods'', 5)] [small, large]) = [''cpu'', ''pods''] \<and>
   fst ` set (subtractMax [(''cpu'', 10), (''pods'', 5)] [small, large]) = {''cpu'', ''pods''}"
  using subtractMax_keys [of "[(''cpu'', 10), (''pods'', 5)]" "[small, large]"]
  by simp

lemma index_MaxResources:
  "index (MaxResources rls) k =
     (if k \<in> fst ` set (concat rls)
      then Max (snd ` {e \<in> set (concat rls). fst e = k}) else 0)"
proof -
  have "map_of (map (\<lambda>name. (name, f name)) names) k =
      (if k \<in> set names then Some (f k) else None)" for f :: "string \<Rightarrow> Quantity" and names
    by (induction names) auto
  then show ?thesis
    by (simp add: index_def MaxResources_def)
qed

section \<open>Properties of \<open>Scheduler.add\<close>\<close>

subsection \<open>The loops\<close>

lemma add_existing_None:
  "add_existing node_Add pod topo xs = None \<longleftrightarrow> (\<forall>x\<in>set xs. isl (node_Add topo x pod))"
  by (induction xs) (auto split: sum.splits option.splits)




lemma add_templates_first:
  "\<forall>m\<in>set pre. isl (add_template env pod s m) \<Longrightarrow> add_template env pod s t = Inr s' \<Longrightarrow>
   add_templates env pod s (pre @ t # post) errs = (None, s')"
  by (induction pre arbitrary: errs) (auto split: sum.splits)


lemma add_templates_cases:
  "add_templates env pod s ts errs = (e, s') \<Longrightarrow>
   (s' = s \<and> (\<forall>m\<in>set ts. isl (add_template env pod s m))) \<or>
   (e = None \<and> (\<exists>pre t post. ts = pre @ t # post \<and>
      (\<forall>m\<in>set pre. isl (add_template env pod s m)) \<and> add_template env pod s t = Inr s'))"
proof (induction ts arbitrary: errs)
  case Nil
  then show ?case by simp
next
  case (Cons t ts)
  show ?case
  proof (cases "add_template env pod s t")
    case (Inr s'')
    with Cons.prems have "e = None" "s' = s''" by auto
    with Inr have "e = None \<and> t # ts = [] @ t # ts \<and>
      (\<forall>m\<in>set []. isl (add_template env pod s m)) \<and> add_template env pod s t = Inr s'"
      by simp
    then show ?thesis by blast
  next
    case (Inl err)
    with Cons.prems have "add_templates env pod s ts (multierr_Append errs (Some err)) = (e, s')"
      by simp
    from Cons.IH [OF this] show ?thesis
    proof
      assume "s' = s \<and> (\<forall>m\<in>set ts. isl (add_template env pod s m))"
      with Inl show ?thesis by simp
    next
      assume "e = None \<and> (\<exists>pre t post. ts = pre @ t # post \<and>
        (\<forall>m\<in>set pre. isl (add_template env pod s m)) \<and> add_template env pod s t = Inr s')"
      then obtain pre t' post where "e = None" "ts = pre @ t' # post"
        "\<forall>m\<in>set pre. isl (add_template env pod s m)" "add_template env pod s t' = Inr s'"
        by blast
      with Inl have "e = None \<and> t # ts = (t # pre) @ t' # post \<and>
        (\<forall>m\<in>set (t # pre). isl (add_template env pod s m)) \<and> add_template env pod s t' = Inr s'"
        by simp
      then show ?thesis by blast
    qed
  qed
qed

subsection \<open>The three phases\<close>

lemma add_instanceTypes_nodes:
  "add_instanceTypes (s\<lparr>nodes := ns\<rparr>) t = add_instanceTypes s t"
  by (simp add: add_instanceTypes_def split: option.splits)

lemma add_template_Inr:
  "add_instanceTypes s t = Inr its \<Longrightarrow>
   Node_Add env (topology s) (NewNode env t (topology s) (daemonOverhead s t) its) pod =
     Inr (node', topo') \<Longrightarrow>
   add_template env pod s t =
     Inr (s\<lparr>nodes := nodes s @ [node'], topology := topo',
           remainingResources := (remainingResources s)
             (ProvisionerName t \<mapsto>
                subtractMax (case remainingResources s (ProvisionerName t) of
                               None \<Rightarrow> [] | Some remaining \<Rightarrow> remaining)
                  (InstanceTypeOptions node'))\<rparr>)"
  by (simp add: add_template_def)

lemma add_template_isl_nodes:
  "isl (add_template env pod (s\<lparr>nodes := ns\<rparr>) t) = isl (add_template env pod s t)"
  by (simp add: add_template_def add_instanceTypes_nodes Let_def split: sum.splits prod.splits)



lemma add_new:
  "\<forall>m\<in>set (inflight s). isl (InFlightNode_Add env (topology s) m pod) \<Longrightarrow>
   \<forall>m\<in>set (sort_Slice env fewerPods (nodes s)). isl (Node_Add env (topology s) m pod) \<Longrightarrow>
   add env pod s =
     add_templates env pod (s\<lparr>nodes := sort_Slice env fewerPods (nodes s)\<rparr>) (nodeTemplates s) None"
  using add_existing_None [of "InFlightNode_Add env" pod "topology s" "inflight s"]
    add_existing_None [of "Node_Add env" pod "topology s" "sort_Slice env fewerPods (nodes s)"]
  by (simp add: add_def)

lemma add_new_first:
  assumes "\<forall>m\<in>set (inflight s). isl (InFlightNode_Add env (topology s) m pod)"
    and "\<forall>m\<in>set (sort_Slice env fewerPods (nodes s)). isl (Node_Add env (topology s) m pod)"
    and "nodeTemplates s = pre @ t # post"
    and "\<forall>m\<in>set pre. isl (add_template env pod s m)"
    and "add_instanceTypes s t = Inr its"
    and "Node_Add env (topology s) (NewNode env t (topology s) (daemonOverhead s t) its) pod =
      Inr (node', topo')"
  shows "add env pod s =
     (None, s\<lparr>nodes := sort_Slice env fewerPods (nodes s) @ [node'], topology := topo',
              remainingResources := (remainingResources s)
                (ProvisionerName t \<mapsto>
                   subtractMax (case remainingResources s (ProvisionerName t) of
                                  None \<Rightarrow> [] | Some remaining \<Rightarrow> remaining)
                     (InstanceTypeOptions node'))\<rparr>)"
proof -
  let ?s1 = "s\<lparr>nodes := sort_Slice env fewerPods (nodes s)\<rparr>"
  have pre: "\<forall>m\<in>set pre. isl (add_template env pod ?s1 m)"
    using assms(4) by (simp add: add_template_isl_nodes)
  have "add_template env pod ?s1 t =
     Inr (?s1\<lparr>nodes := nodes ?s1 @ [node'], topology := topo',
           remainingResources := (remainingResources ?s1)
             (ProvisionerName t \<mapsto>
                subtractMax (case remainingResources ?s1 (ProvisionerName t) of
                               None \<Rightarrow> [] | Some remaining \<Rightarrow> remaining)
                  (InstanceTypeOptions node'))\<rparr>)"
    using assms(5,6) by (intro add_template_Inr) (simp_all add: add_instanceTypes_nodes)
  from add_templates_first [OF pre this, of post None] add_new [OF assms(1,2)] assms(3)
  show ?thesis by simp
qed



subsection \<open>The remaining resources of a provisioner\<close>

lemma index_MaxResources_instanceTypes:
  "index (MaxResources (map Resources opts)) k =
     (if \<exists>it\<in>set opts. k \<in> fst ` set (Resources it)
      then Max {q. \<exists>it\<in>set opts. (k, q) \<in> set (Resources it)} else 0)"
proof -
  have keys: "k \<in> fst ` set (concat (map Resources opts)) \<longleftrightarrow>
      (\<exists>it\<in>set opts. k \<in> fst ` set (Resources it))"
    by auto
  have vals: "snd ` {e \<in> set (concat (map Resources opts)). fst e = k} =
      {q. \<exists>it\<in>set opts. (k, q) \<in> set (Resources it)}"
    by force
  show ?thesis
    unfolding index_MaxResources keys vals ..
qed

lemma subtractMax_explicit:
  assumes "distinct (map fst remaining)"
  shows "subtractMax remaining opts =
     map (\<lambda>(k, v). (k, v - (if \<exists>it\<in>set opts. k \<in> fst ` set (Resources it)
                             then Max {q. \<exists>it\<in>set opts. (k, q) \<in> set (Resources it)}
                             else 0))) remaining"
proof (cases "opts = []")
  case True
  then show ?thesis
    by (simp add: subtractMax_def case_prod_unfold)
next
  case False
  with assms show ?thesis
    by (simp add: subtractMax_distinct index_MaxResources_instanceTypes)
qed

text \<open>
  C4: when no in-flight node and no proposed node takes the pod, the templates before \<open>t\<close>
  fail, the provisioner of \<open>t\<close> has the entry \<open>remaining\<close> in \<open>remainingResources\<close> (a map:
  no resource twice) whose limits leave instance types, and the new node of \<open>t\<close> takes the
  pod and becomes \<open>node'\<close>, then \<open>add\<close> returns \<open>nil\<close>, appends \<open>node'\<close> to the proposed nodes,
  and the entry of the provisioner becomes \<open>remaining\<close> with, for every resource of
  \<open>remaining\<close>, the greatest quantity that an instance type of \<open>node'\<close> lists for that
  resource subtracted (nothing when none lists it). The entries of the other provisioners
  stay as they are.
\<close>

theorem add_subtracts_max:
  assumes "\<forall>m\<in>set (inflight s). isl (InFlightNode_Add env (topology s) m pod)"
    and "\<forall>m\<in>set (sort_Slice env fewerPods (nodes s)). isl (Node_Add env (topology s) m pod)"
    and "nodeTemplates s = pre @ t # post"
    and "\<forall>m\<in>set pre. isl (add_template env pod s m)"
    and "remainingResources s (ProvisionerName t) = Some remaining"
    and "distinct (map fst remaining)"
    and "filterByRemainingResources (instanceTypes s) remaining \<noteq> []"
    and "Node_Add env (topology s)
           (NewNode env t (topology s) (daemonOverhead s t)
              (filterByRemainingResources (instanceTypes s) remaining)) pod = Inr (node', topo')"
  shows "fst (add env pod s) = None \<and>
    nodes (snd (add env pod s)) = sort_Slice env fewerPods (nodes s) @ [node'] \<and>
    remainingResources (snd (add env pod s)) (ProvisionerName t) =
      Some (map (\<lambda>(k, v).
              (k, v - (if \<exists>it\<in>set (InstanceTypeOptions node'). k \<in> fst ` set (Resources it)
                       then Max {q. \<exists>it\<in>set (InstanceTypeOptions node').
                                      (k, q) \<in> set (Resources it)}
                       else 0))) remaining) \<and>
    (\<forall>p. p \<noteq> ProvisionerName t \<longrightarrow>
       remainingResources (snd (add env pod s)) p = remainingResources s p)"
proof -
  have its: "add_instanceTypes s t = Inr (filterByRemainingResources (instanceTypes s) remaining)"
    using assms(5,7) by (simp add: add_instanceTypes_def)
  from add_new_first [OF assms(1-4) its assms(8)] assms(5) subtractMax_explicit [OF assms(6)]
  show ?thesis by simp
qed

subsection \<open>The example scheduler\<close>

lemma sample_filter:
  "filterByRemainingResources [small, medium, large] [(''cpu'', 1)] = []"
  "filterByRemainingResources [small, medium, large] [(''cpu'', 20), (''memory'', 64)] = [small, medium, large]"
  by code_simp+

lemma sample_subtractMax:
  "subtractMax [(''cpu'', 20), (''memory'', 64)] [medium, large] = [(''cpu'', 4), (''memory'', 32)]"
  by code_simp

lemma sample_env_simps:
  "InFlightNode_Add sample_env topo free pod =
     (if pod \<le> free then Inr (free - pod, Suc topo)
      else Inl (Errorf ''insufficient capacity'' []))"
  "Node_Add sample_env topo node pod =
     (let fits = filter (\<lambda>it. int (sum_list (Pods node) + pod) \<le> index (Resources it) ''cpu'')
                     (InstanceTypeOptions node)
      in if fits = [] then Inl (Errorf ''no instance type fits'' [])
         else Inr (node\<lparr>Pods := Pods node @ [pod], InstanceTypeOptions := fits\<rparr>, Suc topo))"
  "NewNode sample_env nodeTemplate topo overhead its = \<lparr>Pods = [], InstanceTypeOptions = its\<rparr>"
  "sort_Slice sample_env = insertion_sort"
  "Relax sample_env ctx pod = (False, pod)"
  "Topology_Update sample_env ctx topo pod = (None, topo)"
  "NewQueue sample_env pods = (pods, [])"
  "Pop sample_env q = (case fst q of [] \<Rightarrow> None | pod # rest \<Rightarrow> Some (pod, (rest, snd q)))"
  "Push sample_env q pod relaxed =
     (if relaxed then (fst q @ [pod], snd q) else (fst q, snd q @ [pod]))"
  by (simp_all add: sample_env_def)

lemma sample_cpu:
  "index (Resources small) ''cpu'' = 2"
  "index (Resources medium) ''cpu'' = 8"
  "index (Resources large) ''cpu'' = 16"
  by (simp_all add: small_def medium_def large_def index_def)

lemma sample_add_6:
  "add sample_env 6 sample_scheduler =
     (None, sample_scheduler\<lparr>
        nodes := [\<lparr>Pods = [6], InstanceTypeOptions = [medium, large]\<rparr>],
        topology := 1,
        remainingResources := (remainingResources sample_scheduler)
          (''default'' \<mapsto> [(''cpu'', 4), (''memory'', 32)])\<rparr>)"
  by (simp add: add_def add_template_def add_instanceTypes_def sample_env_simps
      sample_scheduler_def sample_filter sample_subtractMax insertion_sort_def
      sample_cpu Let_def)

lemma sample_refusals:
  "\<forall>m\<in>set (inflight sample_scheduler).
     isl (InFlightNode_Add sample_env (topology sample_scheduler) m 6)"
  "\<forall>m\<in>set (sort_Slice sample_env fewerPods (nodes sample_scheduler)).
     isl (Node_Add sample_env (topology sample_scheduler) m 6)"
  "\<forall>m\<in>set [\<lparr>ProvisionerName = ''spot''\<rparr>]. isl (add_template sample_env 6 sample_scheduler m)"
  by (simp_all add: sample_scheduler_def sample_env_simps insertion_sort_def add_template_def
      add_instanceTypes_def sample_filter)

lemma sample_new_node:
  "Node_Add sample_env (topology sample_scheduler)
     (NewNode sample_env \<lparr>ProvisionerName = ''default''\<rparr> (topology sample_scheduler)
        (daemonOverhead sample_scheduler \<lparr>ProvisionerName = ''default''\<rparr>)
        (filterByRemainingResources (instanceTypes sample_scheduler)
           [(''cpu'', 20), (''memory'', 64)])) 6 =
   Inr (\<lparr>Pods = [6], InstanceTypeOptions = [medium, large]\<rparr>, 1)"
  by (simp add: sample_scheduler_def sample_env_simps sample_filter sample_cpu Let_def)

theorem add_subtracts_max_witness:
  "fst (add sample_env 6 sample_scheduler) = None \<and>
   nodes (snd (add sample_env 6 sample_scheduler)) =
     [\<lparr>Pods = [6], InstanceTypeOptions = [medium, large]\<rparr>] \<and>
   remainingResources sample_scheduler ''default'' = Some [(''cpu'', 20), (''memory'', 64)] \<and>
   remainingResources (snd (add sample_env 6 sample_scheduler)) ''default'' =
     Some [(''cpu'', 4), (''memory'', 32)] \<and>
   remainingResources (snd (add sample_env 6 sample_scheduler)) ''spot'' = Some [(''cpu'', 1)]"
proof -
  have templates: "nodeTemplates sample_scheduler =
      [\<lparr>ProvisionerName = ''spot''\<rparr>] @ \<lparr>ProvisionerName = ''default''\<rparr> # []"
    by (simp add: sample_scheduler_def)
  have remaining: "remainingResources sample_scheduler
      (ProvisionerName \<lparr>ProvisionerName = ''default''\<rparr>) = Some [(''cpu'', 20), (''memory'', 64)]"
    by (simp add: sample_scheduler_def)
  have keys: "distinct (map fst [(''cpu'', 20::int), (''memory'', 64)])"
    by simp
  have viable: "filterByRemainingResources (instanceTypes sample_scheduler)
      [(''cpu'', 20), (''memory'', 64)] \<noteq> []"
    by (simp add: sample_scheduler_def sample_filter)
  have cpu: "{q. (''cpu'', q) \<in> set (Resources medium) \<or> (''cpu'', q) \<in> set (Resources large)} = {8, 16}"
    and mem: "{q. (''memory'', q) \<in> set (Resources medium) \<or> (''memory'', q) \<in> set (Resources large)} = {16, 32}"
    by (auto simp: medium_def large_def)
  have has: "''cpu'' \<in> fst ` set (Resources medium)" "''memory'' \<in> fst ` set (Resources medium)"
    by (simp_all add: medium_def)
  from add_subtracts_max [OF sample_refusals(1,2) templates sample_refusals(3) remaining keys
      viable sample_new_node]
  show ?thesis
    using has by (simp add: cpu mem sample_scheduler_def sample_env_simps insertion_sort_def)
qed

subsection \<open>The order of the targets\<close>













section \<open>Properties of \<open>Scheduler.Solve\<close>\<close>

lemma Solve_loop_empty:
  "Pop env q = None \<Longrightarrow> Solve_loop env ctx q errors s = Some (q, errors, s)"
  by (subst Solve_loop.simps) simp

lemma Solve_loop_ctx:
  assumes relax: "\<And>pod. Relax env ctx pod = Relax env ctx' pod"
    and update: "\<And>topo pod. Topology_Update env ctx topo pod = Topology_Update env ctx' topo pod"
    and ret: "Solve_loop env ctx q errors s = Some y"
  shows "Solve_loop env ctx' q errors s = Some y"
proof -
  have "env = env \<longrightarrow> ctx = ctx \<longrightarrow> Solve_loop env ctx' q errors s = Some y"
  proof (rule Solve_loop.raw_induct [where P = "\<lambda>env0 ctx0 q errors s y.
      env0 = env \<longrightarrow> ctx0 = ctx \<longrightarrow> Solve_loop env ctx' q errors s = Some y", OF _ ret])
    fix loop env0 ctx0 q errors s y
    assume IH: "\<And>env0 ctx0 q errors s y. loop env0 ctx0 q errors s = Some y \<Longrightarrow>
        env0 = env \<longrightarrow> ctx0 = ctx \<longrightarrow> Solve_loop env ctx' q errors s = Some y"
      and body: "(case Pop env0 q of
          None \<Rightarrow> Some (q, errors, s)
        | Some (pod, q1) \<Rightarrow>
            (case add env0 pod s of
               (None, s1) \<Rightarrow> loop env0 ctx0 q1 (errors(pod := None)) s1
             | (Some err, s1) \<Rightarrow>
                 (case Relax env0 ctx0 pod of
                    (relaxed, pod') \<Rightarrow>
                      loop env0 ctx0 (Push env0 q1 pod' relaxed) (errors(pod := Some err))
                        (if relaxed
                         then s1\<lparr>topology := snd (Topology_Update env0 ctx0 (topology s1) pod')\<rparr>
                         else s1)))) = Some y"
    show "env0 = env \<longrightarrow> ctx0 = ctx \<longrightarrow> Solve_loop env ctx' q errors s = Some y"
    proof (intro impI)
      assume eqs: "env0 = env" "ctx0 = ctx"
      show "Solve_loop env ctx' q errors s = Some y"
      proof (cases "Pop env q")
        case None
        with body eqs show ?thesis by (simp add: Solve_loop_empty)
      next
        case (Some a)
        obtain pod q1 where a: "a = (pod, q1)" by (cases a)
        obtain e s1 where ad: "add env pod s = (e, s1)" by (cases "add env pod s")
        obtain relaxed pod' where rl: "Relax env ctx pod = (relaxed, pod')"
          by (cases "Relax env ctx pod")
        show ?thesis
        proof (cases e)
          case None
          with body eqs Some a ad have "loop env ctx q1 (errors(pod := None)) s1 = Some y"
            by simp
          from IH [OF this] have "Solve_loop env ctx' q1 (errors(pod := None)) s1 = Some y"
            by simp
          with None Some a ad show ?thesis
            by (subst Solve_loop.simps) simp
        next
          case (Some err)
          with body eqs \<open>Pop env q = Some a\<close> a ad rl
          have "loop env ctx (Push env q1 pod' relaxed) (errors(pod := Some err))
                  (if relaxed
                   then s1\<lparr>topology := snd (Topology_Update env ctx (topology s1) pod')\<rparr>
                   else s1) = Some y"
            by (cases relaxed) simp_all
          from IH [OF this]
          have "Solve_loop env ctx' (Push env q1 pod' relaxed) (errors(pod := Some err))
                  (if relaxed
                   then s1\<lparr>topology := snd (Topology_Update env ctx (topology s1) pod')\<rparr>
                   else s1) = Some y"
            by simp
          with Some \<open>Pop env q = Some a\<close> a ad rl relax [of pod] update show ?thesis
            by (subst Solve_loop.simps) (cases relaxed, simp_all)
        qed
      qed
    qed
  qed
  then show ?thesis by simp
qed

lemma Solve_loop_ctx_eq:
  assumes relax: "\<And>pod. Relax env ctx pod = Relax env ctx' pod"
    and update: "\<And>topo pod. Topology_Update env ctx topo pod = Topology_Update env ctx' topo pod"
  shows "Solve_loop env ctx q errors s = Solve_loop env ctx' q errors s"
proof (cases "Solve_loop env ctx q errors s")
  case (Some y)
  with Solve_loop_ctx [OF relax update, of q errors s y] show ?thesis by simp
next
  case None
  show ?thesis
  proof (cases "Solve_loop env ctx' q errors s")
    case (Some y)
    with Solve_loop_ctx [of env ctx' ctx q errors s y] relax update None show ?thesis by simp
  next
    case n: None
    with None show ?thesis by simp
  qed
qed

lemma Solve_loop_success:
  "Pop env q = Some (pod, q1) \<Longrightarrow> add env pod s = (None, s1) \<Longrightarrow>
   Solve_loop env ctx q errors s = Solve_loop env ctx q1 (errors(pod := None)) s1"
  by (subst Solve_loop.simps) simp

lemma Solve_loop_failure:
  "Pop env q = Some (pod, q1) \<Longrightarrow> add env pod s = (Some e, s1) \<Longrightarrow>
   Relax env ctx pod = (relaxed, pod') \<Longrightarrow>
   Solve_loop env ctx q errors s =
     Solve_loop env ctx (Push env q1 pod' relaxed) (errors(pod := Some e))
       (if relaxed then s1\<lparr>topology := snd (Topology_Update env ctx (topology s1) pod')\<rparr>
        else s1)"
  by (subst Solve_loop.simps) simp

lemma Solve_loop_exhausts:
  assumes ret: "Solve_loop env ctx q errors s = Some y"
  shows "Pop env (fst y) = None"
proof (rule Solve_loop.raw_induct [where P = "\<lambda>env ctx q errors s y. Pop env (fst y) = None",
      OF _ ret])
  fix loop env0 ctx0 q errors s y
  assume IH: "\<And>env0 ctx0 q errors s y. loop env0 ctx0 q errors s = Some y \<Longrightarrow>
      Pop env0 (fst y) = None"
    and body: "(case Pop env0 q of
        None \<Rightarrow> Some (q, errors, s)
      | Some (pod, q1) \<Rightarrow>
          (case add env0 pod s of
             (None, s1) \<Rightarrow> loop env0 ctx0 q1 (errors(pod := None)) s1
           | (Some err, s1) \<Rightarrow>
               (case Relax env0 ctx0 pod of
                  (relaxed, pod') \<Rightarrow>
                    loop env0 ctx0 (Push env0 q1 pod' relaxed) (errors(pod := Some err))
                      (if relaxed
                       then s1\<lparr>topology := snd (Topology_Update env0 ctx0 (topology s1) pod')\<rparr>
                       else s1)))) = Some y"
  show "Pop env0 (fst y) = None"
  proof (cases "Pop env0 q")
    case None
    with body show ?thesis by auto
  next
    case (Some a)
    obtain pod q1 where a: "a = (pod, q1)" by (cases a)
    obtain e s1 where ad: "add env0 pod s = (e, s1)" by (cases "add env0 pod s")
    obtain relaxed pod' where rl: "Relax env0 ctx0 pod = (relaxed, pod')"
      by (cases "Relax env0 ctx0 pod")
    show ?thesis
    proof (cases e)
      case None
      with body Some a ad have "loop env0 ctx0 q1 (errors(pod := None)) s1 = Some y"
        by simp
      then show ?thesis by (rule IH)
    next
      case (Some err)
      with body \<open>Pop env0 q = Some a\<close> a ad rl
      have "loop env0 ctx0 (Push env0 q1 pod' relaxed) (errors(pod := Some err))
              (if relaxed
               then s1\<lparr>topology := snd (Topology_Update env0 ctx0 (topology s1) pod')\<rparr>
               else s1) = Some y"
        by (cases relaxed) simp_all
      then show ?thesis by (rule IH)
    qed
  qed
qed

lemma sample_filter_4:
  "filterByRemainingResources [small, medium, large] [(''cpu'', 4), (''memory'', 32)] = [small]"
  by code_simp

lemma sample_add_20:
  "add sample_env 20 sample_scheduler_6 =
     (Some (multiError [Errorf ''all available instance types exceed provisioner limits'' [],
                        Errorf ''no instance type fits'' []]),
      sample_scheduler_6)"
  by (simp add: add_def add_template_def add_instanceTypes_def sample_env_simps
      sample_scheduler_6_def sample_scheduler_def sample_filter sample_filter_4
      insertion_sort_def sample_cpu Let_def)

lemma sample_add_2:
  "add sample_env 2 sample_scheduler_6 =
     (None, sample_scheduler_6\<lparr>inflight := [1, 1, 5], topology := 2\<rparr>)"
  by (simp add: add_def sample_env_simps sample_scheduler_6_def sample_scheduler_def)

lemma sample_Solve:
  "Solve sample_env sample_scheduler ctx [6, 20, 2] =
     Some (([\<lparr>Pods = [6], InstanceTypeOptions = [medium, large]\<rparr>], None),
           sample_scheduler_6\<lparr>inflight := [1, 1, 5], topology := 2\<rparr>)"
proof -
  have second: "Solve_loop sample_env ctx ([2], [20]) errors sample_scheduler_6 =
      Some (([], [20]), errors(2 := None),
        sample_scheduler_6\<lparr>inflight := [1, 1, 5], topology := 2\<rparr>)" for errors
    by (subst Solve_loop.simps) (simp add: sample_env_simps sample_add_2 Solve_loop_empty)
  have first: "Solve_loop sample_env ctx ([20, 2], []) errors sample_scheduler_6 =
      Some (([], [20]),
        errors(20 \<mapsto> multiError [Errorf ''all available instance types exceed provisioner limits'' [],
                                    Errorf ''no instance type fits'' []], 2 := None),
        sample_scheduler_6\<lparr>inflight := [1, 1, 5], topology := 2\<rparr>)" for errors
    by (subst Solve_loop.simps) (simp add: sample_env_simps sample_add_20 second)
  have add6: "add sample_env 6 sample_scheduler = (None, sample_scheduler_6)"
    by (simp add: sample_add_6 sample_scheduler_6_def)
  have "Solve_loop sample_env ctx ([6, 20, 2], []) (\<lambda>pod. None) sample_scheduler =
      Some (([], [20]),
        ((\<lambda>pod. None)(6 := None))
          (20 \<mapsto> multiError [Errorf ''all available instance types exceed provisioner limits'' [],
                                Errorf ''no instance type fits'' []], 2 := None),
        sample_scheduler_6\<lparr>inflight := [1, 1, 5], topology := 2\<rparr>)"
    by (subst Solve_loop.simps) (simp add: sample_env_simps first add6)
  then show ?thesis
    by (simp add: Solve_def sample_env_simps) (simp add: sample_scheduler_6_def)
qed

text \<open>
  C3, as the claim states it, fails: with a cancelled context, \<open>Solve\<close> on the example
  scheduler works through the whole queue (it places the pods 6 and 2 and gives 20 up), and
  returns the plan with the error \<open>nil\<close>.
\<close>

theorem Solve_cancelled_counterexample:
  "map_option fst (Solve sample_env sample_scheduler \<lparr>cancelled = True\<rparr> [6, 20, 2]) =
     Some ([\<lparr>Pods = [6], InstanceTypeOptions = [medium, large]\<rparr>], None)"
  by (simp add: sample_Solve)

text \<open>
  C3, amended: \<open>Solve\<close> never reads the context, which it only hands to \<open>Relax\<close> and to
  \<open>topology.Update\<close>. Whenever \<open>Solve\<close> returns, cancelled context or not, it returns the
  proposed nodes of the scheduler with the error \<open>nil\<close>, and the queue gives no further pod;
  it returns at once when the queue gives no pod; and two contexts that \<open>Relax\<close> and
  \<open>topology.Update\<close> do not tell apart give the same result. The loop works through the
  queue: it ends only when the queue gives no pod, and for every pod that the queue gives
  it calls \<open>add\<close> and goes on; with the rest of the queue when \<open>add\<close> returns \<open>nil\<close>, else
  with the pod relaxed and pushed back (and the topology updated when relaxing changed
  the pod).
\<close>

theorem Solve_ignores_cancellation:
  "(Solve env s ctx pods = Some ((ns, err), s') \<longrightarrow>
      err = None \<and> ns = nodes s' \<and>
      (\<exists>q errors. Solve_loop env ctx (NewQueue env pods) (\<lambda>pod. None) s = Some (q, errors, s') \<and>
         Pop env q = None)) \<and>
   (Pop env (NewQueue env pods) = None \<longrightarrow> Solve env s ctx pods = Some ((nodes s, None), s)) \<and>
   ((\<forall>pod. Relax env ctx pod = Relax env ctx' pod) \<and>
    (\<forall>topo pod. Topology_Update env ctx topo pod = Topology_Update env ctx' topo pod) \<longrightarrow>
    Solve env s ctx pods = Solve env s ctx' pods) \<and>
   (\<forall>q errors s0 y. Solve_loop env ctx q errors s0 = Some y \<longrightarrow> Pop env (fst y) = None) \<and>
   (\<forall>q errors s0. Pop env q = None \<longrightarrow> Solve_loop env ctx q errors s0 = Some (q, errors, s0)) \<and>
   (\<forall>q errors s0 pod q1 s1.
      Pop env q = Some (pod, q1) \<and> add env pod s0 = (None, s1) \<longrightarrow>
      Solve_loop env ctx q errors s0 = Solve_loop env ctx q1 (errors(pod := None)) s1) \<and>
   (\<forall>q errors s0 pod q1 e s1 relaxed pod'.
      Pop env q = Some (pod, q1) \<and> add env pod s0 = (Some e, s1) \<and>
      Relax env ctx pod = (relaxed, pod') \<longrightarrow>
      Solve_loop env ctx q errors s0 =
        Solve_loop env ctx (Push env q1 pod' relaxed) (errors(pod := Some e))
          (if relaxed then s1\<lparr>topology := snd (Topology_Update env ctx (topology s1) pod')\<rparr>
           else s1)) \<and>
   (\<forall>q errors s1. Solve_loop env ctx (NewQueue env pods) (\<lambda>pod. None) s = Some (q, errors, s1) \<longrightarrow>
      Solve env s ctx pods = Some ((nodes s1, None), s1))"
proof (intro conjI impI allI)
  assume ret: "Solve env s ctx pods = Some ((ns, err), s')"
  then show "err = None" and "ns = nodes s'"
    by (auto simp: Solve_def split: option.splits)
  from ret obtain q errors where
    loop: "Solve_loop env ctx (NewQueue env pods) (\<lambda>pod. None) s = Some (q, errors, s')"
    by (auto simp: Solve_def split: option.splits)
  from Solve_loop_exhausts [OF loop] have "Pop env q = None" by simp
  with loop show "\<exists>q errors.
      Solve_loop env ctx (NewQueue env pods) (\<lambda>pod. None) s = Some (q, errors, s') \<and>
      Pop env q = None"
    by blast
next
  assume "Pop env (NewQueue env pods) = None"
  then show "Solve env s ctx pods = Some ((nodes s, None), s)"
    by (simp add: Solve_def Solve_loop_empty)
next
  assume "(\<forall>pod. Relax env ctx pod = Relax env ctx' pod) \<and>
    (\<forall>topo pod. Topology_Update env ctx topo pod = Topology_Update env ctx' topo pod)"
  then have "Solve_loop env ctx (NewQueue env pods) (\<lambda>pod. None) s =
      Solve_loop env ctx' (NewQueue env pods) (\<lambda>pod. None) s"
    by (intro Solve_loop_ctx_eq) simp_all
  then show "Solve env s ctx pods = Solve env s ctx' pods"
    by (simp add: Solve_def)
next
  fix q errors s0 y
  assume "Solve_loop env ctx q errors s0 = Some y"
  then show "Pop env (fst y) = None"
    by (rule Solve_loop_exhausts)
next
  fix q errors s0
  assume "Pop env q = None"
  then show "Solve_loop env ctx q errors s0 = Some (q, errors, s0)"
    by (rule Solve_loop_empty)
next
  fix q errors s0 pod q1 s1
  assume "Pop env q = Some (pod, q1) \<and> add env pod s0 = (None, s1)"
  then show "Solve_loop env ctx q errors s0 = Solve_loop env ctx q1 (errors(pod := None)) s1"
    using Solve_loop_success [of env q pod q1 s0 s1 ctx errors] by blast
next
  fix q errors s0 pod q1 e s1 relaxed pod'
  assume "Pop env q = Some (pod, q1) \<and> add env pod s0 = (Some e, s1) \<and>
      Relax env ctx pod = (relaxed, pod')"
  then show "Solve_loop env ctx q errors s0 =
        Solve_loop env ctx (Push env q1 pod' relaxed) (errors(pod := Some e))
          (if relaxed then s1\<lparr>topology := snd (Topology_Update env ctx (topology s1) pod')\<rparr>
           else s1)"
    using Solve_loop_failure [of env q pod q1 s0 e s1 ctx relaxed pod' errors] by blast
next
  fix q errors s1
  assume "Solve_loop env ctx (NewQueue env pods) (\<lambda>pod. None) s = Some (q, errors, s1)"
  then show "Solve env s ctx pods = Some ((nodes s1, None), s1)"
    by (simp add: Solve_def)
qed

theorem Solve_ignores_cancellation_witness:
  "Solve sample_env sample_scheduler \<lparr>cancelled = True\<rparr> [6, 20, 2] =
     Some (([\<lparr>Pods = [6], InstanceTypeOptions = [medium, large]\<rparr>], None),
           sample_scheduler_6\<lparr>inflight := [1, 1, 5], topology := 2\<rparr>) \<and>
   nodes (sample_scheduler_6\<lparr>inflight := [1, 1, 5], topology := 2\<rparr>) =
     [\<lparr>Pods = [6], InstanceTypeOptions = [medium, large]\<rparr>] \<and>
   (\<exists>q errors.
      Solve_loop sample_env \<lparr>cancelled = True\<rparr> (NewQueue sample_env [6, 20, 2]) (\<lambda>pod. None)
        sample_scheduler =
        Some (q, errors, sample_scheduler_6\<lparr>inflight := [1, 1, 5], topology := 2\<rparr>) \<and>
      Pop sample_env q = None) \<and>
   Pop sample_env (NewQueue sample_env []) = None \<and>
   Solve sample_env sample_scheduler \<lparr>cancelled = True\<rparr> [] =
     Some ((nodes sample_scheduler, None), sample_scheduler) \<and>
   Solve sample_env sample_scheduler \<lparr>cancelled = True\<rparr> [6, 20, 2] =
     Solve sample_env sample_scheduler \<lparr>cancelled = False\<rparr> [6, 20, 2] \<and>
   Pop sample_env ([6, 20, 2], []) = Some (6, ([20, 2], [])) \<and>
   add sample_env 6 sample_scheduler = (None, sample_scheduler_6) \<and>
   Solve_loop sample_env \<lparr>cancelled = True\<rparr> ([6, 20, 2], []) (\<lambda>pod. None) sample_scheduler =
     Solve_loop sample_env \<lparr>cancelled = True\<rparr> ([20, 2], []) ((\<lambda>pod. None)(6 := None))
       sample_scheduler_6 \<and>
   Pop sample_env ([20, 2], []) = Some (20, ([2], [])) \<and>
   Relax sample_env \<lparr>cancelled = True\<rparr> 20 = (False, 20) \<and>
   Solve_loop sample_env \<lparr>cancelled = True\<rparr> ([20, 2], []) (\<lambda>pod. None) sample_scheduler_6 =
     Solve_loop sample_env \<lparr>cancelled = True\<rparr> ([2], [20])
       ((\<lambda>pod. None)(20 := Some (multiError
          [Errorf ''all available instance types exceed provisioner limits'' [],
           Errorf ''no instance type fits'' []])))
       sample_scheduler_6"
proof -
  let ?ctx = "\<lparr>cancelled = True\<rparr>"
  let ?final = "sample_scheduler_6\<lparr>inflight := [1, 1, 5], topology := 2\<rparr>"
  note inst = Solve_ignores_cancellation [of sample_env sample_scheduler ?ctx "[6, 20, 2]"
      "[\<lparr>Pods = [6], InstanceTypeOptions = [medium, large]\<rparr>]" None ?final
      "\<lparr>cancelled = False\<rparr>"]
  have empty: "Pop sample_env (NewQueue sample_env []) = None"
    by (simp add: sample_env_simps)
  have same: "\<forall>pod. Relax sample_env ?ctx pod = Relax sample_env \<lparr>cancelled = False\<rparr> pod"
    "\<forall>topo pod. Topology_Update sample_env ?ctx topo pod =
      Topology_Update sample_env \<lparr>cancelled = False\<rparr> topo pod"
    by (simp_all add: sample_env_simps)
  from Solve_ignores_cancellation [of sample_env sample_scheduler ?ctx
      "[]" "nodes sample_scheduler" None sample_scheduler "\<lparr>cancelled = False\<rparr>"] empty
  have a: "Solve sample_env sample_scheduler ?ctx [] =
     Some ((nodes sample_scheduler, None), sample_scheduler)"
    by simp
  from inst same
  have b: "Solve sample_env sample_scheduler ?ctx [6, 20, 2] =
     Solve sample_env sample_scheduler \<lparr>cancelled = False\<rparr> [6, 20, 2]"
    by simp
  from inst [THEN conjunct1] sample_Solve [of ?ctx]
  have c: "nodes ?final = [\<lparr>Pods = [6], InstanceTypeOptions = [medium, large]\<rparr>]"
    and d: "\<exists>q errors.
      Solve_loop sample_env ?ctx (NewQueue sample_env [6, 20, 2]) (\<lambda>pod. None) sample_scheduler =
        Some (q, errors, ?final) \<and> Pop sample_env q = None"
    by simp_all
  have pop6: "Pop sample_env ([6, 20, 2], []) = Some (6, ([20, 2], []))"
    and pop20: "Pop sample_env ([20, 2], []) = Some (20, ([2], []))"
    and relax: "Relax sample_env ?ctx 20 = (False, 20)"
    by (simp_all add: sample_env_simps)
  have add6: "add sample_env 6 sample_scheduler = (None, sample_scheduler_6)"
    by (simp add: sample_add_6 sample_scheduler_6_def)
  from inst [THEN conjunct2, THEN conjunct2, THEN conjunct2, THEN conjunct2, THEN conjunct2,
      THEN conjunct1, rule_format, of "([6, 20, 2], [])" 6 "([20, 2], [])" sample_scheduler
      sample_scheduler_6 "\<lambda>pod. None"] pop6 add6
  have e: "Solve_loop sample_env ?ctx ([6, 20, 2], []) (\<lambda>pod. None) sample_scheduler =
     Solve_loop sample_env ?ctx ([20, 2], []) ((\<lambda>pod. None)(6 := None)) sample_scheduler_6"
    by simp
  from inst [THEN conjunct2, THEN conjunct2, THEN conjunct2, THEN conjunct2, THEN conjunct2,
      THEN conjunct2, THEN conjunct1, rule_format, of "([20, 2], [])" 20 "([2], [])"
      sample_scheduler_6
      "multiError [Errorf ''all available instance types exceed provisioner limits'' [],
                   Errorf ''no instance type fits'' []]"
      sample_scheduler_6 False 20 "\<lambda>pod. None"] pop20 sample_add_20 relax
  have f: "Solve_loop sample_env ?ctx ([20, 2], []) (\<lambda>pod. None) sample_scheduler_6 =
     Solve_loop sample_env ?ctx ([2], [20])
       ((\<lambda>pod. None)(20 := Some (multiError
          [Errorf ''all available instance types exceed provisioner limits'' [],
           Errorf ''no instance type fits'' []])))
       sample_scheduler_6"
    by (simp add: sample_env_simps)
  from a b c d e f empty pop6 pop20 relax add6 sample_Solve [of ?ctx] show ?thesis
    by (intro conjI) assumption+
qed

end
